theory Spec2Isabelle
  imports Complex_Main "HOL-Library.Word"
begin

section \<open>Generative audio engine\<close>

text \<open>
  A shallow embedding of the class \<open>AudioEngine\<close>. JavaScript numbers are modelled as
  real numbers (values that are integers as integers), so IEEE rounding is not part of the
  model. The Web Audio backend is modelled as a store of audio nodes owned by the audio
  context; a node is referred to by its index in that store.
\<close>

subsection \<open>Musical parameters and the scale table\<close>

record MusicalParams =
  scale :: string
  baseFrequency :: real
  tempo :: real
  complexity :: real
  mood :: string

text \<open>The field \<open>scales\<close>: intervals relative to the root, keyed by name.\<close>

definition scales :: "(string \<times> int list) list" where
  "scales =
    [(''major'', [0, 2, 4, 5, 7, 9, 11, 12]),
     (''minor'', [0, 2, 3, 5, 7, 8, 10, 12]),
     (''pentatonic'', [0, 2, 4, 7, 9, 12, 14, 16]),
     (''mystic'', [0, 2, 4, 6, 9, 11, 12]),
     (''dream'', [0, 2, 4, 5, 7, 9, 11])]"

text \<open>\<open>params.scale === 'minor' ? 'minor' : 'pentatonic'\<close>\<close>

definition scaleName :: "MusicalParams \<Rightarrow> string" where
  "scaleName p = (if scale p = ''minor'' then ''minor'' else ''pentatonic'')"

text \<open>\<open>this.scales[scaleName] || this.scales.pentatonic\<close>: an array is truthy, so the
  right operand is taken only when the key is absent.\<close>

definition scaleNotes :: "MusicalParams \<Rightarrow> int list" where
  "scaleNotes p =
    (case map_of scales (scaleName p) of
       Some ns \<Rightarrow> ns
     | None \<Rightarrow> the (map_of scales ''pentatonic''))"

text \<open>\<open>params.tempo || 80\<close>: the number 0 is falsy, every other number is kept.\<close>

definition bpm :: "MusicalParams \<Rightarrow> real" where
  "bpm p = (if tempo p = 0 then 80 else tempo p)"

definition noteDuration :: "MusicalParams \<Rightarrow> real" where
  "noteDuration p = 60 / bpm p"

subsection \<open>Seeded sequence generator\<close>

text \<open>
  A JavaScript string is a sequence of 16-bit code units, which \<open>charCodeAt\<close> reads.
  The operator \<open><<\<close> converts its left operand to a signed 32-bit integer, shifts, and
  yields a signed 32-bit integer; the subtraction and the addition around it are ordinary
  number arithmetic and do not wrap.
\<close>

type_synonym js_string = "16 word list"

definition shl5 :: "int \<Rightarrow> int" where
  "shl5 h = sint (push_bit 5 (word_of_int h :: 32 word))"

definition hash_step :: "int \<Rightarrow> 16 word \<Rightarrow> int" where
  "hash_step hash c = uint c + (shl5 hash - hash)"

definition seed_hash :: "js_string \<Rightarrow> int" where
  "seed_hash seed = foldl hash_step 0 seed"

text \<open>
  A generator is a callable without arguments: its observable behaviour is the sequence
  of values it returns and how many calls have been made so far.
\<close>

record rng =
  draws :: "nat \<Rightarrow> real"
  calls :: nat

definition rng_call :: "rng \<Rightarrow> real \<times> rng" where
  "rng_call r = (draws r (calls r), r\<lparr>calls := calls r + 1\<rparr>)"

text \<open>The returned closure: \<open>x = Math.sin(hash++) * 10000; return x - Math.floor(x)\<close>.\<close>

definition draw_at :: "int \<Rightarrow> real" where
  "draw_at h = (let x = sin (of_int h) * 10000 in x - of_int \<lfloor>x\<rfloor>)"

definition getRandomFromSeed :: "js_string \<Rightarrow> rng" where
  "getRandomFromSeed seed = \<lparr>draws = (\<lambda>n. draw_at (seed_hash seed + int n)), calls = 0\<rparr>"

text \<open>A generator replaying an injected list of draws and then a constant.\<close>

definition replay :: "real list \<Rightarrow> real \<Rightarrow> rng" where
  "replay ds d = \<lparr>draws = (\<lambda>n. if n < length ds then ds ! n else d), calls = 0\<rparr>"

subsection \<open>The audio backend\<close>

text \<open>
  The nodes created through the audio context live in a store; the engine holds indices
  into it. Every node has one main parameter (an oscillator's frequency, a gain node's gain,
  a delay node's delay time), the automation events scheduled on it, and its outgoing
  connections.
\<close>

datatype ctx_state = Suspended | Running | Closed

datatype waveform = Sine | Triangle

datatype node_kind = OscillatorNode | GainNode | ConvolverNode | DelayNode

datatype target = Destination | Input nat | GainParam nat

datatype automation =
    SetValueAtTime real real
  | LinearRampToValueAtTime real real
  | ExponentialRampToValueAtTime real real

datatype dom_error = InvalidStateError | NotAllowedError

record audio_node =
  kind :: node_kind
  wave :: waveform
  param :: real
  events :: "automation list"
  buffer :: "real list list"
  started :: "real option"
  stopped :: "real option"
  outputs :: "target list"

record audio_ctx =
  state :: ctx_state
  currentTime :: real
  sampleRate :: nat

text \<open>The closure handed to \<open>setInterval\<close>, with the interval's period in milliseconds.\<close>

record melody_timer =
  period :: real
  m_params :: MusicalParams
  m_scaleNotes :: "int list"
  m_rng :: rng

text \<open>
  The fields of the class, followed by what the host holds for it: the store of audio
  nodes and the pending one-shot timeouts (delay in milliseconds, nodes to disconnect).
\<close>

record AudioEngine =
  ctx :: "audio_ctx option"
  isPlaying :: bool
  masterGain :: "nat option"
  melodyInterval :: "melody_timer option"
  reverbNode :: "nat option"
  delayNode :: "nat option"
  currentOscillators :: "nat list"
  nodes :: "audio_node list"
  timeouts :: "(real \<times> nat list) list"

text \<open>The constructor: the context is present when the host offers an audio context class.\<close>

definition new_engine :: "audio_ctx option \<Rightarrow> AudioEngine" where
  "new_engine c =
    \<lparr>ctx = c, isPlaying = False, masterGain = None, melodyInterval = None,
     reverbNode = None, delayNode = None, currentOscillators = [], nodes = [], timeouts = []\<rparr>"

text \<open>Defaults of a new node: a sine oscillator at 440 Hz, unity gain, zero delay.\<close>

definition fresh :: "node_kind \<Rightarrow> audio_node" where
  "fresh k =
    \<lparr>kind = k, wave = Sine,
     param = (case k of OscillatorNode \<Rightarrow> 440 | GainNode \<Rightarrow> 1 | _ \<Rightarrow> 0),
     events = [], buffer = [], started = None, stopped = None, outputs = []\<rparr>"

definition create :: "node_kind \<Rightarrow> AudioEngine \<Rightarrow> nat \<times> AudioEngine" where
  "create k e = (length (nodes e), e\<lparr>nodes := nodes e @ [fresh k]\<rparr>)"

definition update :: "nat \<Rightarrow> (audio_node \<Rightarrow> audio_node) \<Rightarrow> AudioEngine \<Rightarrow> AudioEngine" where
  "update i f e = e\<lparr>nodes := (nodes e)[i := f (nodes e ! i)]\<rparr>"

definition set_wave :: "nat \<Rightarrow> waveform \<Rightarrow> AudioEngine \<Rightarrow> AudioEngine" where
  "set_wave i w = update i (\<lambda>n. n\<lparr>wave := w\<rparr>)"

definition set_param :: "nat \<Rightarrow> real \<Rightarrow> AudioEngine \<Rightarrow> AudioEngine" where
  "set_param i v = update i (\<lambda>n. n\<lparr>param := v\<rparr>)"

definition set_buffer :: "nat \<Rightarrow> real list list \<Rightarrow> AudioEngine \<Rightarrow> AudioEngine" where
  "set_buffer i b = update i (\<lambda>n. n\<lparr>buffer := b\<rparr>)"

definition schedule :: "nat \<Rightarrow> automation \<Rightarrow> AudioEngine \<Rightarrow> AudioEngine" where
  "schedule i a = update i (\<lambda>n. n\<lparr>events := events n @ [a]\<rparr>)"

text \<open>Connecting twice to the same target leaves a single connection.\<close>

definition connect :: "nat \<Rightarrow> target \<Rightarrow> AudioEngine \<Rightarrow> AudioEngine" where
  "connect i t =
    update i (\<lambda>n. n\<lparr>outputs := (if t \<in> set (outputs n) then outputs n else outputs n @ [t])\<rparr>)"

definition disconnect :: "nat \<Rightarrow> AudioEngine \<Rightarrow> AudioEngine" where
  "disconnect i = update i (\<lambda>n. n\<lparr>outputs := []\<rparr>)"

text \<open>\<open>start\<close> is only ever called on an oscillator created a few lines before.\<close>

definition start :: "nat \<Rightarrow> real \<Rightarrow> AudioEngine \<Rightarrow> AudioEngine" where
  "start i t = update i (\<lambda>n. n\<lparr>started := Some t\<rparr>)"

text \<open>\<open>stop\<close> on an oscillator that was never started throws.\<close>

definition stop_node :: "nat \<Rightarrow> real \<Rightarrow> AudioEngine \<Rightarrow> dom_error + AudioEngine" where
  "stop_node i t e =
    (if started (nodes e ! i) = None then Inl InvalidStateError
     else Inr (update i (\<lambda>n. n\<lparr>stopped := Some t\<rparr>) e))"

subsection \<open>Backend resume\<close>

text \<open>
  How the promise of \<open>ctx.resume()\<close> settles is decided by the host: it resolves, it is
  rejected, or it stays pending. An awaiting caller continues only when it resolves.
\<close>

datatype outcome = Resolved | Rejected dom_error | Pending

datatype completion = Completed | Raised dom_error | Blocked

record host =
  resume_outcome :: outcome
  random :: "nat \<Rightarrow> real"

definition resume :: "outcome \<Rightarrow> AudioEngine \<Rightarrow> completion \<times> AudioEngine" where
  "resume out e =
    (case ctx e of
       None \<Rightarrow> (Completed, e)
     | Some c \<Rightarrow>
         if state c = Suspended then
           (case out of
              Resolved \<Rightarrow> (Completed, e\<lparr>ctx := Some (c\<lparr>state := Running\<rparr>)\<rparr>)
            | Rejected err \<Rightarrow> (Raised err, e)
            | Pending \<Rightarrow> (Blocked, e))
         else (Completed, e))"

subsection \<open>Effects bus\<close>

text \<open>The impulse response: \<open>(Math.random() * 2 - 1) * Math.pow(1 - i / length, 2.0)\<close>.\<close>

definition impulse :: "(nat \<Rightarrow> real) \<Rightarrow> nat \<Rightarrow> real list" where
  "impulse rand len = map (\<lambda>i. (rand i * 2 - 1) * (1 - real i / real len) ^ 2) [0..<len]"

definition setupEffects :: "(nat \<Rightarrow> real) \<Rightarrow> AudioEngine \<Rightarrow> AudioEngine" where
  "setupEffects rand e0 =
    (case (ctx e0, masterGain e0) of
       (Some c, Some mg) \<Rightarrow>
         let (rv, e1) =
               (case reverbNode e0 of
                  Some r \<Rightarrow> (r, e0)
                | None \<Rightarrow>
                    let (r, a1) = create ConvolverNode e0;
                        a2 = a1\<lparr>reverbNode := Some r\<rparr>;
                        rate = sampleRate c;
                        len = rate * 3;
                        imp = impulse rand len
                    in (r, set_buffer r [imp, imp] a2));
             (dl, e2) =
               (case delayNode e1 of
                  Some d \<Rightarrow> (d, e1)
                | None \<Rightarrow>
                    let (d, b1) = create DelayNode e1;
                        b2 = b1\<lparr>delayNode := Some d\<rparr>;
                        b3 = set_param d 0.5 b2;
                        (fb, b4) = create GainNode b3;
                        b5 = set_param fb 0.3 b4;
                        b6 = connect d (Input fb) b5
                    in (d, connect fb (Input d) b6));
             (wet, e3) = create GainNode e2;
             e4 = set_param wet 0.4 e3;
             e5 = connect mg (Input wet) e4;
             e6 = connect wet (Input rv) e5;
             e7 = connect wet (Input dl) e6;
             e8 = connect rv Destination e7
         in connect dl Destination e8
     | _ \<Rightarrow> e0)"

subsection \<open>Pad voice\<close>

definition chordOffsets :: "real list" where
  "chordOffsets = [1, 1.5, 1.25]"

text \<open>The body of the \<open>forEach\<close> over the chord offsets.\<close>

definition pad_tone ::
    "real \<Rightarrow> real \<Rightarrow> nat \<Rightarrow> AudioEngine \<times> rng \<Rightarrow> real \<Rightarrow> AudioEngine \<times> rng" where
  "pad_tone rootHz t mg s mult =
    (let (e0, r0) = s;
         (osc, e1) = create OscillatorNode e0;
         (d1, r1) = rng_call r0;
         e2 = set_wave osc (if d1 > 0.5 then Sine else Triangle) e1;
         e3 = set_param osc (rootHz * mult) e2;
         (g, e4) = create GainNode e3;
         e5 = set_param g 0.08 e4;
         (lfo, e6) = create OscillatorNode e5;
         (d2, r2) = rng_call r1;
         e7 = set_param lfo (0.1 + d2 * 0.2) e6;
         (lfoGain, e8) = create GainNode e7;
         e9 = set_param lfoGain 0.02 e8;
         e10 = connect lfo (Input lfoGain) e9;
         e11 = connect lfoGain (GainParam g) e10;
         e12 = start lfo t e11;
         e13 = connect osc (Input g) e12;
         e14 = connect g (Input mg) e13;
         e15 = start osc t e14;
         e16 = e15\<lparr>currentOscillators := currentOscillators e15 @ [osc]\<rparr>;
         e17 = e16\<lparr>currentOscillators := currentOscillators e16 @ [lfo]\<rparr>
     in (e17, r2))"

definition startPad :: "MusicalParams \<Rightarrow> rng \<Rightarrow> AudioEngine \<Rightarrow> AudioEngine \<times> rng" where
  "startPad p r e =
    (case (ctx e, masterGain e) of
       (Some c, Some mg) \<Rightarrow>
         let t = currentTime c;
             rootHz = baseFrequency p / 2
         in foldl (pad_tone rootHz t mg) (e, r) chordOffsets
     | _ \<Rightarrow> (e, r))"

subsection \<open>Melody scheduler\<close>

record melody_note =
  noteIdx :: int
  octave :: real
  freq :: "real option"

datatype tick_result = Idle | Skip | Emit melody_note

text \<open>
  \<open>baseFrequency * Math.pow(2, scaleNotes[noteIdx] / 12) * octave\<close>; reading an array
  off its range gives \<open>undefined\<close> and the product is not a number (\<open>None\<close>).
\<close>

definition note_freq :: "MusicalParams \<Rightarrow> int list \<Rightarrow> int \<Rightarrow> real \<Rightarrow> real option" where
  "note_freq p ns i oct =
    (if 0 \<le> i \<and> i < int (length ns)
     then Some (baseFrequency p * 2 powr (real_of_int (ns ! nat i) / 12) * oct)
     else None)"

text \<open>The draws of one tick and the note they choose.\<close>

definition tick_decide :: "melody_timer \<Rightarrow> melody_note option \<times> melody_timer" where
  "tick_decide tm =
    (let p = m_params tm;
         ns = m_scaleNotes tm;
         (gate, r1) = rng_call (m_rng tm)
     in if gate > 1 - complexity p then
          let (d, r2) = rng_call r1;
              i = \<lfloor>d * real (length ns)\<rfloor>;
              (v, r3) = rng_call r2;
              oct = (if v > 0.7 then 2 else 1)
          in (Some \<lparr>noteIdx = i, octave = oct, freq = note_freq p ns i oct\<rparr>, tm\<lparr>m_rng := r3\<rparr>)
        else (None, tm\<lparr>m_rng := r1\<rparr>))"

text \<open>
  The oscillator and envelope of one note. Scheduling a frequency that is not a number
  is rejected by the backend, which ends the callback there.
\<close>

definition play_note :: "real option \<Rightarrow> real \<Rightarrow> nat \<Rightarrow> AudioEngine \<Rightarrow> AudioEngine" where
  "play_note fr t mg e0 =
    (let (osc, e1) = create OscillatorNode e0;
         e2 = set_wave osc Sine e1
     in case fr of
          None \<Rightarrow> e2
        | Some f \<Rightarrow>
            (let e3 = schedule osc (SetValueAtTime f t) e2;
                 (env, e4) = create GainNode e3;
                 e5 = connect env (Input mg) e4;
                 e6 = schedule env (SetValueAtTime 0 t) e5;
                 e7 = schedule env (LinearRampToValueAtTime 0.3 (t + 0.05)) e6;
                 e8 = schedule env (ExponentialRampToValueAtTime 0.001 (t + 2.0)) e7;
                 e9 = connect osc (Input env) e8;
                 e10 = start osc t e9
             in (case stop_node osc (t + 2.0) e10 of
                   Inl err \<Rightarrow> e10
                 | Inr e11 \<Rightarrow> e11\<lparr>timeouts := timeouts e11 @ [(2100, [osc, env])]\<rparr>)))"

text \<open>
  The callback of the interval; it starts with
  \<open>if (!this.isPlaying || !this.ctx || !this.masterGain) return\<close>.
\<close>

definition melody_callback ::
    "melody_timer \<Rightarrow> AudioEngine \<Rightarrow> tick_result \<times> melody_timer \<times> AudioEngine" where
  "melody_callback tm e =
    (if \<not> isPlaying e then (Idle, tm, e)
     else (case (ctx e, masterGain e) of
             (Some c, Some mg) \<Rightarrow>
               (case tick_decide tm of
                  (Some n, tm') \<Rightarrow> (Emit n, tm', play_note (freq n) (currentTime c) mg e)
                | (None, tm') \<Rightarrow> (Skip, tm', e))
           | _ \<Rightarrow> (Idle, tm, e)))"

definition startGenerativeMelody :: "MusicalParams \<Rightarrow> rng \<Rightarrow> AudioEngine \<Rightarrow> AudioEngine" where
  "startGenerativeMelody p r e =
    (case ctx e of
       None \<Rightarrow> e
     | Some c \<Rightarrow>
         e\<lparr>melodyInterval :=
             Some \<lparr>period = noteDuration p * 1000, m_params = p,
                   m_scaleNotes = scaleNotes p, m_rng = r\<rparr>\<rparr>)"

text \<open>The host fires the interval at the clock readings of a list, one tick each.\<close>

definition at_time :: "real \<Rightarrow> AudioEngine \<Rightarrow> AudioEngine" where
  "at_time t e = e\<lparr>ctx := map_option (\<lambda>c. c\<lparr>currentTime := t\<rparr>) (ctx e)\<rparr>"

fun run_ticks ::
    "real list \<Rightarrow> melody_timer \<Rightarrow> AudioEngine \<Rightarrow> tick_result list \<times> melody_timer \<times> AudioEngine" where
  "run_ticks [] tm e = ([], tm, e)"
| "run_ticks (t # ts) tm e =
    (let (r, tm1, e1) = melody_callback tm (at_time t e);
         (rs, tm2, e2) = run_ticks ts tm1 e1
     in (r # rs, tm2, e2))"

subsection \<open>Lifecycle\<close>

text \<open>\<open>try { o.stop(); o.disconnect(); } catch(e){}\<close>, where \<open>stop()\<close> without an argument
  is \<open>stop(0)\<close>: at once.\<close>

definition stop_voice :: "nat \<Rightarrow> AudioEngine \<Rightarrow> dom_error + AudioEngine" where
  "stop_voice i e =
    (case (case stop_node i 0 e of
             Inl err \<Rightarrow> Inl err
           | Inr e1 \<Rightarrow> Inr (disconnect i e1)) of
       Inl err \<Rightarrow> Inr e
     | Inr e2 \<Rightarrow> Inr e2)"

fun forEach ::
    "('a \<Rightarrow> 's \<Rightarrow> dom_error + 's) \<Rightarrow> 'a list \<Rightarrow> 's \<Rightarrow> dom_error + 's" where
  "forEach f [] s = Inr s"
| "forEach f (x # xs) s = (case f x s of Inl err \<Rightarrow> Inl err | Inr s1 \<Rightarrow> forEach f xs s1)"

definition stop :: "AudioEngine \<Rightarrow> dom_error + AudioEngine" where
  "stop e0 =
    (let e1 = e0\<lparr>isPlaying := False\<rparr>;
         e2 = (case melodyInterval e1 of
                 Some tm \<Rightarrow> e1\<lparr>melodyInterval := None\<rparr>
               | None \<Rightarrow> e1)
     in case forEach stop_voice (currentOscillators e2) e2 of
          Inl err \<Rightarrow> Inl err
        | Inr e3 \<Rightarrow>
            let e4 = e3\<lparr>currentOscillators := []\<rparr>
            in (case masterGain e4 of
                  Some mg \<Rightarrow> Inr ((disconnect mg e4)\<lparr>masterGain := None\<rparr>)
                | None \<Rightarrow> Inr e4))"

definition play ::
    "MusicalParams \<Rightarrow> js_string \<Rightarrow> host \<Rightarrow> AudioEngine \<Rightarrow> completion \<times> AudioEngine" where
  "play p memoryId h e0 =
    (case ctx e0 of
       None \<Rightarrow> (Completed, e0)
     | Some c0 \<Rightarrow>
         (case resume (resume_outcome h) e0 of
            (Completed, e1) \<Rightarrow>
              (case stop e1 of
                 Inl err \<Rightarrow> (Raised err, e1)
               | Inr e2 \<Rightarrow>
                   let t = currentTime c0;
                       (mg, e3) = create GainNode e2;
                       e4 = e3\<lparr>masterGain := Some mg\<rparr>;
                       e5 = schedule mg (SetValueAtTime 0 t) e4;
                       e6 = schedule mg (LinearRampToValueAtTime 0.5 (t + 1.0)) e5;
                       e7 = connect mg Destination e6;
                       e8 = setupEffects (random h) e7;
                       r = getRandomFromSeed memoryId;
                       (e9, r1) = startPad p r e8;
                       e10 = startGenerativeMelody p r1 e9
                   in (Completed, e10\<lparr>isPlaying := True\<rparr>))
          | (res, e1) \<Rightarrow> (res, e1)))"

subsection \<open>Observations on a run of ticks\<close>

text \<open>The liveness test at the head of the interval's callback.\<close>

definition live :: "AudioEngine \<Rightarrow> bool" where
  "live e \<longleftrightarrow> isPlaying e \<and> ctx e \<noteq> None \<and> masterGain e \<noteq> None"

fun is_emit :: "tick_result \<Rightarrow> bool" where
  "is_emit (Emit n) = True"
| "is_emit r = False"

definition emits :: "tick_result list \<Rightarrow> nat" where
  "emits rs = length (filter is_emit rs)"

text \<open>
  The number of emitting ticks among \<open>n\<close> ticks as a function of the draws alone: a tick
  that passes the gate at position \<open>pos\<close> leaves the generator at \<open>pos + 3\<close>, one that
  fails leaves it at \<open>pos + 1\<close>.
\<close>

fun gate_count :: "real \<Rightarrow> (nat \<Rightarrow> real) \<Rightarrow> nat \<Rightarrow> nat \<Rightarrow> nat" where
  "gate_count c ds pos 0 = 0"
| "gate_count c ds pos (Suc n) =
    (if ds pos > 1 - c then Suc (gate_count c ds (pos + 3) n)
     else gate_count c ds (pos + 1) n)"

subsection \<open>Concrete inputs\<close>

text \<open>The parameters that the metadata service falls back to.\<close>

definition fallback_params :: MusicalParams where
  "fallback_params =
    \<lparr>scale = ''pentatonic'', baseFrequency = 261.63, tempo = 80, complexity = 0.5,
     mood = ''ethereal''\<rparr>"

text \<open>An engine in the middle of a session whose only node is the master gain.\<close>

definition live_engine :: AudioEngine where
  "live_engine =
    \<lparr>ctx = Some \<lparr>state = Running, currentTime = 0, sampleRate = 44100\<rparr>,
     isPlaying = True, masterGain = Some 0, melodyInterval = None,
     reverbNode = None, delayNode = None, currentOscillators = [],
     nodes = [fresh GainNode], timeouts = []\<rparr>"

definition injected :: rng where
  "injected = replay [0.9, 0.2, 0.95, 0.3] 0"

definition injected_timer :: "real \<Rightarrow> melody_timer" where
  "injected_timer c =
    \<lparr>period = 750, m_params = fallback_params\<lparr>complexity := c\<rparr>,
     m_scaleNotes = [0, 2, 4, 7, 9, 12, 14, 16], m_rng = injected\<rparr>"

text \<open>The pattern emit, skip, emit, skip, ... (or its complement) over a number of ticks.\<close>

fun alternate :: "bool \<Rightarrow> nat \<Rightarrow> bool list" where
  "alternate b 0 = []"
| "alternate b (Suc n) = b # alternate (\<not> b) n"

text \<open>A generator replaying an injected list of draws over and over.\<close>

definition cycle :: "real list \<Rightarrow> rng" where
  "cycle ds = \<lparr>draws = (\<lambda>n. ds ! (n mod length ds)), calls = 0\<rparr>"

definition injected_cycle :: rng where
  "injected_cycle = cycle [0.9, 0.2, 0.95, 0.3]"

subsection \<open>Observations on the pad voice\<close>

text \<open>
  The four nodes (tone, its gain, modulator, modulation depth) that iteration \<open>k\<close> of the
  pad's loop leaves in the store, when the store held \<open>n\<close> nodes before the first one.
\<close>

definition pad_nodes :: "real \<Rightarrow> real \<Rightarrow> nat \<Rightarrow> rng \<Rightarrow> nat \<Rightarrow> nat \<Rightarrow> audio_node list" where
  "pad_nodes rootHz t mg r n k =
     [\<lparr>kind = OscillatorNode,
       wave = (if draws r (calls r + 2 * k) > 0.5 then Sine else Triangle),
       param = rootHz * (chordOffsets ! k), events = [], buffer = [], started = Some t,
       stopped = None, outputs = [Input (n + 4 * k + 1)]\<rparr>,
      \<lparr>kind = GainNode, wave = Sine, param = 0.08, events = [], buffer = [],
       started = None, stopped = None, outputs = [Input mg]\<rparr>,
      \<lparr>kind = OscillatorNode, wave = Sine, param = 0.1 + draws r (calls r + 2 * k + 1) * 0.2,
       events = [], buffer = [], started = Some t, stopped = None,
       outputs = [Input (n + 4 * k + 3)]\<rparr>,
      \<lparr>kind = GainNode, wave = Sine, param = 0.02, events = [], buffer = [],
       started = None, stopped = None, outputs = [GainParam (n + 4 * k + 1)]\<rparr>]"

text \<open>The timbre and frequency of every tracked oscillator, in the order of tracking.\<close>

definition pad_choices :: "AudioEngine \<Rightarrow> (waveform \<times> real) list" where
  "pad_choices e = map (\<lambda>i. (wave (nodes e ! i), param (nodes e ! i))) (currentOscillators e)"

text \<open>
  The timbres and frequencies that the draws of a seed give to the three tones and their
  modulators.
\<close>

definition seeded_pad :: "MusicalParams \<Rightarrow> js_string \<Rightarrow> (waveform \<times> real) list" where
  "seeded_pad p seed =
    (let d = draws (getRandomFromSeed seed);
         hz = baseFrequency p / 2;
         timbre = (\<lambda>x. if x > 0.5 then Sine else Triangle)
     in [(timbre (d 0), hz * 1), (Sine, 0.1 + d 1 * 0.2),
         (timbre (d 2), hz * 1.5), (Sine, 0.1 + d 3 * 0.2),
         (timbre (d 4), hz * 1.25), (Sine, 0.1 + d 5 * 0.2)])"

text \<open>
  A session in progress (master gain and two started oscillators) on a backend that the host
  has suspended.
\<close>

definition suspended_session :: AudioEngine where
  "suspended_session =
    \<lparr>ctx = Some \<lparr>state = Suspended, currentTime = 12, sampleRate = 44100\<rparr>,
     isPlaying = True, masterGain = Some 0, melodyInterval = Some (injected_timer 0.5),
     reverbNode = None, delayNode = None, currentOscillators = [1, 2],
     nodes = [(fresh GainNode)\<lparr>outputs := [Destination]\<rparr>,
              (fresh OscillatorNode)\<lparr>started := Some 0, outputs := [Input 0]\<rparr>,
              (fresh OscillatorNode)\<lparr>started := Some 0, outputs := [Input 0]\<rparr>],
     timeouts = []\<rparr>"

text \<open>Two hosts: one that leaves a resume pending, one that resolves it.\<close>

definition pending_host :: host where
  "pending_host = \<lparr>resume_outcome = Pending, random = (\<lambda>i. 0)\<rparr>"

definition ready_host :: host where
  "ready_host = \<lparr>resume_outcome = Resolved, random = (\<lambda>i. 1 / 2)\<rparr>"

text \<open>The identifier "m1".\<close>

definition memory_id :: js_string where
  "memory_id = [109, 49]"

section \<open>Properties\<close>

subsection \<open>Seed hash\<close>

text \<open>
  The hash of a seed of \<open>n\<close> code units is at most \<open>n * (2^31 + 2^16)\<close> in absolute value:
  for every seed shorter than \<open>2^21\<close> code units it stays below \<open>2^53\<close>, where a JavaScript
  number holds every integer exactly. The seed "abc" hashes to 96354.
\<close>

lemma shl5_bound: "\<bar>shl5 h\<bar> \<le> 2 ^ 31"
proof -
  have "- (2 ^ 31) \<le> sint (push_bit 5 (word_of_int h :: 32 word))"
    using sint_ge [of "push_bit 5 (word_of_int h :: 32 word)"] by simp
  moreover have "sint (push_bit 5 (word_of_int h :: 32 word)) < 2 ^ 31"
    using sint_lt [of "push_bit 5 (word_of_int h :: 32 word)"] by simp
  ultimately show ?thesis by (simp add: shl5_def)
qed

lemma hash_step_bound: "\<bar>hash_step h c\<bar> \<le> \<bar>h\<bar> + (2 ^ 31 + 2 ^ 16)"
proof -
  have "0 \<le> uint c" "uint c < 2 ^ 16"
    using uint_bounded [of c] by simp_all
  with shl5_bound [of h] show ?thesis
    unfolding hash_step_def by linarith
qed

lemma seed_hash_bound: "\<bar>seed_hash seed\<bar> \<le> int (length seed) * (2 ^ 31 + 2 ^ 16)"
proof (induction seed rule: rev_induct)
  case Nil
  then show ?case by (simp add: seed_hash_def)
next
  case (snoc c seed)
  have "\<bar>seed_hash (seed @ [c])\<bar> \<le> \<bar>seed_hash seed\<bar> + (2 ^ 31 + 2 ^ 16)"
    using hash_step_bound [of "seed_hash seed" c] by (simp add: seed_hash_def)
  with snoc show ?case by (simp add: algebra_simps)
qed

lemma seed_hash_abc: "seed_hash [97, 98, 99] = 96354"
  by (simp add: seed_hash_def hash_step_def shl5_def)

subsection \<open>Scale table\<close>

text \<open>
  C8 (as amended). Every entry of the scale table is strictly ascending. The largest
  offset is 12 for major, minor and mystic, 11 for dream and 16 for pentatonic: only the
  pentatonic entry goes beyond one octave, and it reaches into the second octave without
  covering it.
\<close>

theorem scale_table_shape:
  "map (\<lambda>(name, ns). (name, sorted_wrt (<) ns, Max (set ns))) scales =
    [(''major'', True, 12), (''minor'', True, 12), (''pentatonic'', True, 16),
     (''mystic'', True, 12), (''dream'', True, 11)]"
  by (simp add: scales_def)

text \<open>The entry dream has no offset above 12, so not every entry spans more than an octave.\<close>

theorem scale_table_span_counterexample:
  "map_of scales ''dream'' = Some [0, 2, 4, 5, 7, 9, 11] \<and>
   \<not> 12 < Max (set [0, 2, 4, 5, 7, 9, 11 :: int])"
  by (simp add: scales_def)

subsection \<open>Locals of the melody scheduler\<close>

text \<open>
  C7. The scale table that the melody scheduler keeps for its ticks is the minor entry when
  the scale parameter is exactly "minor", and the pentatonic entry for every other value.
\<close>

theorem melody_scale_resolution:
  assumes "ctx e = Some c"
  shows "(scale p \<noteq> ''minor'' \<longrightarrow>
            map_option m_scaleNotes (melodyInterval (startGenerativeMelody p r e)) =
              map_of scales ''pentatonic'') \<and>
         (scale p = ''minor'' \<longrightarrow>
            map_option m_scaleNotes (melodyInterval (startGenerativeMelody p r e)) =
              map_of scales ''minor'') \<and>
         map_of scales ''pentatonic'' = Some [0, 2, 4, 7, 9, 12, 14, 16] \<and>
         map_of scales ''minor'' = Some [0, 2, 3, 5, 7, 8, 10, 12]"
  using assms
  by (simp add: startGenerativeMelody_def scaleNotes_def scaleName_def scales_def)

theorem melody_scale_resolution_witness:
  "ctx live_engine = Some \<lparr>state = Running, currentTime = 0, sampleRate = 44100\<rparr> \<and>
   scale (fallback_params\<lparr>scale := ''chromatic''\<rparr>) \<noteq> ''minor'' \<and>
   map_option m_scaleNotes
     (melodyInterval
       (startGenerativeMelody (fallback_params\<lparr>scale := ''chromatic''\<rparr>) injected live_engine)) =
     Some [0, 2, 4, 7, 9, 12, 14, 16] \<and>
   scale (fallback_params\<lparr>scale := ''minor''\<rparr>) = ''minor'' \<and>
   map_option m_scaleNotes
     (melodyInterval
       (startGenerativeMelody (fallback_params\<lparr>scale := ''minor''\<rparr>) injected live_engine)) =
     Some [0, 2, 3, 5, 7, 8, 10, 12]"
proof -
  have c: "ctx live_engine = Some \<lparr>state = Running, currentTime = 0, sampleRate = 44100\<rparr>"
    by (simp add: live_engine_def)
  show ?thesis
    using c
      melody_scale_resolution [OF c, of "fallback_params\<lparr>scale := ''chromatic''\<rparr>" injected]
      melody_scale_resolution [OF c, of "fallback_params\<lparr>scale := ''minor''\<rparr>" injected]
    by (simp add: fallback_params_def)
qed

text \<open>
  C6 (as amended). The tempo is not validated. A tempo other than zero is used as supplied:
  the tick interval is 60 / tempo seconds, which is negative for a negative tempo. A tempo of
  zero is replaced by the default of 80 beats per minute, so the interval is 0.75 seconds.
  The interval handed to the host timer is that number of seconds times 1000.
\<close>

theorem tempo_interval:
  "(tempo p \<noteq> 0 \<longrightarrow> noteDuration p = 60 / tempo p) \<and>
   (tempo p < 0 \<longrightarrow> noteDuration p < 0) \<and>
   (tempo p = 0 \<longrightarrow> noteDuration p = 3 / 4) \<and>
   (ctx e \<noteq> None \<longrightarrow>
      map_option period (melodyInterval (startGenerativeMelody p r e)) =
        Some (noteDuration p * 1000))"
  by (auto simp: noteDuration_def bpm_def startGenerativeMelody_def divide_neg_pos
           split: option.splits)

theorem tempo_interval_witness:
  "tempo (fallback_params\<lparr>tempo := - 60\<rparr>) < 0 \<and>
   noteDuration (fallback_params\<lparr>tempo := - 60\<rparr>) = - 1 \<and>
   tempo (fallback_params\<lparr>tempo := 0\<rparr>) = 0 \<and>
   noteDuration (fallback_params\<lparr>tempo := 0\<rparr>) = 3 / 4 \<and>
   ctx live_engine \<noteq> None \<and>
   map_option period
     (melodyInterval (startGenerativeMelody (fallback_params\<lparr>tempo := - 60\<rparr>) injected live_engine)) =
     Some (- 1000)"
  using tempo_interval [of "fallback_params\<lparr>tempo := - 60\<rparr>" live_engine injected]
    tempo_interval [of "fallback_params\<lparr>tempo := 0\<rparr>" live_engine injected]
  by (auto simp add: fallback_params_def live_engine_def)

text \<open>
  With a tempo of zero the interval is the one of the default tempo, 0.75 seconds, not a
  value computed from the zero that was supplied.
\<close>

theorem tempo_zero_counterexample:
  "noteDuration (fallback_params\<lparr>tempo := 0\<rparr>) = 3 / 4 \<and>
   noteDuration (fallback_params\<lparr>tempo := 0\<rparr>) = noteDuration (fallback_params\<lparr>tempo := 80\<rparr>) \<and>
   noteDuration (fallback_params\<lparr>tempo := 0\<rparr>) \<noteq> 60 / tempo (fallback_params\<lparr>tempo := 0\<rparr>)"
  by (simp add: noteDuration_def bpm_def fallback_params_def)

subsection \<open>Node operations leave the engine's fields alone\<close>

lemma update_fields [simp]:
  "ctx (update i f e) = ctx e" "isPlaying (update i f e) = isPlaying e"
  "masterGain (update i f e) = masterGain e" "melodyInterval (update i f e) = melodyInterval e"
  "reverbNode (update i f e) = reverbNode e" "delayNode (update i f e) = delayNode e"
  "currentOscillators (update i f e) = currentOscillators e" "timeouts (update i f e) = timeouts e"
  "length (nodes (update i f e)) = length (nodes e)"
  by (simp_all add: update_def)

lemmas node_ops = set_wave_def set_param_def set_buffer_def schedule_def connect_def
  disconnect_def start_def

lemma play_note_fields [simp]:
  "ctx (play_note fr t mg e) = ctx e" "isPlaying (play_note fr t mg e) = isPlaying e"
  "masterGain (play_note fr t mg e) = masterGain e"
  "melodyInterval (play_note fr t mg e) = melodyInterval e"
  "currentOscillators (play_note fr t mg e) = currentOscillators e"
  by (simp_all add: play_note_def create_def Let_def node_ops stop_node_def split_beta
           split: option.splits sum.splits)

subsection \<open>Ticks\<close>

lemma tick_decide_skip:
  "\<not> draws (m_rng tm) (calls (m_rng tm)) > 1 - complexity (m_params tm) \<Longrightarrow>
   tick_decide tm = (None, tm\<lparr>m_rng := (m_rng tm)\<lparr>calls := calls (m_rng tm) + 1\<rparr>\<rparr>)"
  by (simp add: tick_decide_def rng_call_def Let_def)

lemma tick_decide_emit:
  "draws (m_rng tm) (calls (m_rng tm)) > 1 - complexity (m_params tm) \<Longrightarrow>
   tick_decide tm =
     (Some \<lparr>noteIdx = \<lfloor>draws (m_rng tm) (calls (m_rng tm) + 1) * real (length (m_scaleNotes tm))\<rfloor>,
            octave = (if draws (m_rng tm) (calls (m_rng tm) + 2) > 0.7 then 2 else 1),
            freq = note_freq (m_params tm) (m_scaleNotes tm)
                     \<lfloor>draws (m_rng tm) (calls (m_rng tm) + 1) * real (length (m_scaleNotes tm))\<rfloor>
                     (if draws (m_rng tm) (calls (m_rng tm) + 2) > 0.7 then 2 else 1)\<rparr>,
      tm\<lparr>m_rng := (m_rng tm)\<lparr>calls := calls (m_rng tm) + 3\<rparr>\<rparr>)"
  by (simp add: tick_decide_def rng_call_def Let_def)

lemma at_time_live [simp]: "live (at_time t e) = live e"
  by (simp add: live_def at_time_def)

lemma callback_live: "live e \<Longrightarrow> live (snd (snd (melody_callback tm e)))"
  by (auto simp: melody_callback_def live_def split: option.splits prod.splits)

lemma callback_result:
  "live e \<Longrightarrow>
   fst (melody_callback tm e) = (case fst (tick_decide tm) of Some n \<Rightarrow> Emit n | None \<Rightarrow> Skip) \<and>
   fst (snd (melody_callback tm e)) = snd (tick_decide tm)"
  by (auto simp: melody_callback_def live_def split: option.splits prod.splits)

lemma callback_skip:
  assumes "live e"
    and "\<not> draws (m_rng tm) (calls (m_rng tm)) > 1 - complexity (m_params tm)"
  shows "fst (melody_callback tm e) = Skip"
    and "fst (snd (melody_callback tm e)) = tm\<lparr>m_rng := (m_rng tm)\<lparr>calls := calls (m_rng tm) + 1\<rparr>\<rparr>"
  using callback_result [OF assms(1), of tm] tick_decide_skip [OF assms(2)] by simp_all

lemma callback_emit:
  assumes "live e"
    and "draws (m_rng tm) (calls (m_rng tm)) > 1 - complexity (m_params tm)"
  shows "fst (melody_callback tm e) =
      Emit \<lparr>noteIdx = \<lfloor>draws (m_rng tm) (calls (m_rng tm) + 1) * real (length (m_scaleNotes tm))\<rfloor>,
            octave = (if draws (m_rng tm) (calls (m_rng tm) + 2) > 0.7 then 2 else 1),
            freq = note_freq (m_params tm) (m_scaleNotes tm)
                     \<lfloor>draws (m_rng tm) (calls (m_rng tm) + 1) * real (length (m_scaleNotes tm))\<rfloor>
                     (if draws (m_rng tm) (calls (m_rng tm) + 2) > 0.7 then 2 else 1)\<rparr>"
    and "fst (snd (melody_callback tm e)) = tm\<lparr>m_rng := (m_rng tm)\<lparr>calls := calls (m_rng tm) + 3\<rparr>\<rparr>"
  using callback_result [OF assms(1), of tm] tick_decide_emit [OF assms(2)] by simp_all

lemma run_ticks_Cons:
  "run_ticks (t # ts) tm e =
    (fst (melody_callback tm (at_time t e)) #
       fst (run_ticks ts (fst (snd (melody_callback tm (at_time t e))))
              (snd (snd (melody_callback tm (at_time t e))))),
     snd (run_ticks ts (fst (snd (melody_callback tm (at_time t e))))
              (snd (snd (melody_callback tm (at_time t e))))))"
  by (simp add: split_beta)

lemma run_ticks_emits:
  "live e \<Longrightarrow>
   emits (fst (run_ticks ts tm e)) =
     gate_count (complexity (m_params tm)) (draws (m_rng tm)) (calls (m_rng tm)) (length ts)"
proof (induction ts arbitrary: tm e)
  case Nil
  then show ?case by (simp add: emits_def)
next
  case (Cons t ts)
  let ?e = "at_time t e"
  have l: "live ?e" using Cons.prems by simp
  have l1: "live (snd (snd (melody_callback tm ?e)))" by (rule callback_live [OF l])
  note IH = Cons.IH [OF l1, of "fst (snd (melody_callback tm ?e))"]
  show ?case
  proof (cases "draws (m_rng tm) (calls (m_rng tm)) > 1 - complexity (m_params tm)")
    case True
    with IH callback_emit [OF l True] show ?thesis
      by (simp add: run_ticks_Cons emits_def del: run_ticks.simps)
  next
    case False
    with IH callback_skip [OF l False] show ?thesis
      by (simp add: run_ticks_Cons emits_def del: run_ticks.simps)
  qed
qed

lemma run_ticks_calls:
  "live e \<Longrightarrow>
   calls (m_rng (fst (snd (run_ticks ts tm e)))) =
     calls (m_rng tm) + length ts + 2 * emits (fst (run_ticks ts tm e)) \<and>
   draws (m_rng (fst (snd (run_ticks ts tm e)))) = draws (m_rng tm)"
proof (induction ts arbitrary: tm e)
  case Nil
  then show ?case by (simp add: emits_def)
next
  case (Cons t ts)
  let ?e = "at_time t e"
  have l: "live ?e" using Cons.prems by simp
  have l1: "live (snd (snd (melody_callback tm ?e)))" by (rule callback_live [OF l])
  note IH = Cons.IH [OF l1, of "fst (snd (melody_callback tm ?e))"]
  show ?case
  proof (cases "draws (m_rng tm) (calls (m_rng tm)) > 1 - complexity (m_params tm)")
    case True
    with IH callback_emit [OF l True] show ?thesis
      by (simp add: run_ticks_Cons emits_def del: run_ticks.simps)
  next
    case False
    with IH callback_skip [OF l False] show ?thesis
      by (simp add: run_ticks_Cons emits_def del: run_ticks.simps)
  qed
qed

lemma live_live_engine: "live live_engine"
  by (simp add: live_def live_engine_def)

text \<open>
  C10. On a live engine a tick that fails the emission gate consumes exactly one draw, and
  a tick that passes it consumes exactly three: the gate, then the scale degree, then the
  octave. After any run of ticks the generator stands at its starting position plus the
  number of ticks plus twice the number of ticks that emitted.
\<close>

theorem tick_draw_consumption:
  assumes "live e"
  shows "(case melody_callback tm e of
            (res, tm1, e1) \<Rightarrow>
              draws (m_rng tm1) = draws (m_rng tm) \<and>
              (case res of
                 Idle \<Rightarrow> False
               | Skip \<Rightarrow>
                   \<not> draws (m_rng tm) (calls (m_rng tm)) > 1 - complexity (m_params tm) \<and>
                   calls (m_rng tm1) = calls (m_rng tm) + 1
               | Emit n \<Rightarrow>
                   draws (m_rng tm) (calls (m_rng tm)) > 1 - complexity (m_params tm) \<and>
                   noteIdx n =
                     \<lfloor>draws (m_rng tm) (calls (m_rng tm) + 1) * real (length (m_scaleNotes tm))\<rfloor> \<and>
                   octave n = (if draws (m_rng tm) (calls (m_rng tm) + 2) > 0.7 then 2 else 1) \<and>
                   calls (m_rng tm1) = calls (m_rng tm) + 3)) \<and>
         (case run_ticks ts tm e of
            (rs, tm2, e2) \<Rightarrow>
              calls (m_rng tm2) = calls (m_rng tm) + length ts + 2 * emits rs)"
proof -
  have one: "case melody_callback tm e of
            (res, tm1, e1) \<Rightarrow>
              draws (m_rng tm1) = draws (m_rng tm) \<and>
              (case res of
                 Idle \<Rightarrow> False
               | Skip \<Rightarrow>
                   \<not> draws (m_rng tm) (calls (m_rng tm)) > 1 - complexity (m_params tm) \<and>
                   calls (m_rng tm1) = calls (m_rng tm) + 1
               | Emit n \<Rightarrow>
                   draws (m_rng tm) (calls (m_rng tm)) > 1 - complexity (m_params tm) \<and>
                   noteIdx n =
                     \<lfloor>draws (m_rng tm) (calls (m_rng tm) + 1) * real (length (m_scaleNotes tm))\<rfloor> \<and>
                   octave n = (if draws (m_rng tm) (calls (m_rng tm) + 2) > 0.7 then 2 else 1) \<and>
                   calls (m_rng tm1) = calls (m_rng tm) + 3)"
  proof (cases "draws (m_rng tm) (calls (m_rng tm)) > 1 - complexity (m_params tm)")
    case True
    with callback_emit [OF assms True] show ?thesis
      by (simp add: split_beta)
  next
    case False
    with callback_skip [OF assms False] show ?thesis
      by (simp add: split_beta)
  qed
  have many: "case run_ticks ts tm e of
            (rs, tm2, e2) \<Rightarrow>
              calls (m_rng tm2) = calls (m_rng tm) + length ts + 2 * emits rs"
    using run_ticks_calls [OF assms, of ts tm] by (simp add: split_beta)
  from one many show ?thesis by blast
qed

theorem tick_draw_consumption_witness:
  "live live_engine \<and>
   fst (melody_callback (injected_timer 0.5) live_engine) =
     Emit \<lparr>noteIdx = 1, octave = 2, freq = Some (261.63 * 2 powr (2 / 12) * 2)\<rparr> \<and>
   calls (m_rng (fst (snd (melody_callback (injected_timer 0.5) live_engine)))) = 3 \<and>
   calls (m_rng (fst (snd (run_ticks [0, 0.75, 1.5] (injected_timer 0.5) live_engine)))) =
     3 + 2 * emits (fst (run_ticks [0, 0.75, 1.5] (injected_timer 0.5) live_engine))"
proof -
  have g: "draws (m_rng (injected_timer 0.5)) (calls (m_rng (injected_timer 0.5)))
      > 1 - complexity (m_params (injected_timer 0.5))"
    by (simp add: injected_timer_def injected_def replay_def fallback_params_def)
  have r: "fst (melody_callback (injected_timer 0.5) live_engine) =
     Emit \<lparr>noteIdx = 1, octave = 2, freq = Some (261.63 * 2 powr (2 / 12) * 2)\<rparr>"
    unfolding callback_emit(1) [OF live_live_engine g]
    by (simp add: injected_timer_def injected_def replay_def fallback_params_def note_freq_def)
  have c: "calls (m_rng (injected_timer 0.5)) = 0"
    by (simp add: injected_timer_def injected_def replay_def)
  show ?thesis
    using tick_draw_consumption [OF live_live_engine, of "injected_timer 0.5" "[0, 0.75, 1.5]"] r c
    by (simp add: live_live_engine split_beta del: run_ticks.simps)
qed

lemma scaleNotes_cases:
  "scaleNotes p = [0, 2, 3, 5, 7, 8, 10, 12] \<or> scaleNotes p = [0, 2, 4, 7, 9, 12, 14, 16]"
  by (simp add: scaleNotes_def scaleName_def scales_def)

lemma startGenerativeMelody_live [simp]: "live (startGenerativeMelody p r e) = live e"
  by (simp add: startGenerativeMelody_def live_def split: option.splits)

lemma startGenerativeMelody_timer:
  "ctx e \<noteq> None \<Longrightarrow>
   melodyInterval (startGenerativeMelody p r e) =
     Some \<lparr>period = noteDuration p * 1000, m_params = p, m_scaleNotes = scaleNotes p, m_rng = r\<rparr>"
  by (auto simp: startGenerativeMelody_def)

lemma gate_count_mono:
  "c1 \<le> c2 \<Longrightarrow> gate_count c1 ds pos n \<le> gate_count c2 ds (pos + 2 * d) n + d"
proof (induction n arbitrary: pos d)
  case 0
  then show ?case by simp
next
  case (Suc n)
  let ?cnt = "\<lambda>c q. gate_count c ds q n"
  let ?em1 = "ds pos > 1 - c1"
  let ?em2 = "ds (pos + 2 * d) > 1 - c2"
  consider (both) "?em1" "?em2" | (first) "?em1" "\<not> ?em2" | (second) "\<not> ?em1" "?em2"
    | (neither) "\<not> ?em1" "\<not> ?em2"
    by blast
  then show ?case
  proof cases
    case both
    have s1: "gate_count c1 ds pos (Suc n) = Suc (?cnt c1 (pos + 3))"
      using both by simp
    have s2: "gate_count c2 ds (pos + 2 * d) (Suc n) = Suc (?cnt c2 (pos + 2 * d + 3))"
      using both by simp
    have p: "pos + 2 * d + 3 = pos + 3 + 2 * d" by simp
    have "?cnt c1 (pos + 3) \<le> ?cnt c2 (pos + 3 + 2 * d) + d"
      by (rule Suc.IH [OF Suc.prems])
    then show ?thesis unfolding s1 s2 p by linarith
  next
    case first
    have s1: "gate_count c1 ds pos (Suc n) = Suc (?cnt c1 (pos + 3))"
      using first by simp
    have s2: "gate_count c2 ds (pos + 2 * d) (Suc n) = ?cnt c2 (pos + 2 * d + 1)"
      using first by simp
    have "d \<noteq> 0"
    proof
      assume "d = 0"
      with first Suc.prems show False by simp
    qed
    then obtain d' where d: "d = Suc d'" by (cases d) auto
    have p: "pos + 2 * d + 1 = pos + 3 + 2 * d'" using d by simp
    have "?cnt c1 (pos + 3) \<le> ?cnt c2 (pos + 3 + 2 * d') + d'"
      by (rule Suc.IH [OF Suc.prems])
    then show ?thesis unfolding s1 s2 p using d by linarith
  next
    case second
    have s1: "gate_count c1 ds pos (Suc n) = ?cnt c1 (pos + 1)"
      using second by simp
    have s2: "gate_count c2 ds (pos + 2 * d) (Suc n) = Suc (?cnt c2 (pos + 2 * d + 3))"
      using second by simp
    have p: "pos + 2 * d + 3 = pos + 1 + 2 * (d + 1)" by simp
    have "?cnt c1 (pos + 1) \<le> ?cnt c2 (pos + 1 + 2 * (d + 1)) + (d + 1)"
      by (rule Suc.IH [OF Suc.prems])
    then show ?thesis unfolding s1 s2 p by linarith
  next
    case neither
    have s1: "gate_count c1 ds pos (Suc n) = ?cnt c1 (pos + 1)"
      using neither by simp
    have s2: "gate_count c2 ds (pos + 2 * d) (Suc n) = ?cnt c2 (pos + 2 * d + 1)"
      using neither by simp
    have p: "pos + 2 * d + 1 = pos + 1 + 2 * d" by simp
    have "?cnt c1 (pos + 1) \<le> ?cnt c2 (pos + 1 + 2 * d) + d"
      by (rule Suc.IH [OF Suc.prems])
    then show ?thesis unfolding s1 s2 p by linarith
  qed
qed

text \<open>
  C4. Two melody schedulers that share the draw sequence and differ in complexity, run
  for the same number of ticks on live engines: the one with the greater or equal complexity
  emits at least as many notes. The run with more emissions is further along in the draws
  by twice its lead, and it can only fall back by giving up one emission of that lead.
\<close>

theorem complexity_monotone:
  assumes "complexity (m_params tm1) \<le> complexity (m_params tm2)"
    and "m_rng tm1 = m_rng tm2"
    and "live e1" and "live e2"
  shows "emits (fst (run_ticks ts tm1 e1)) \<le> emits (fst (run_ticks ts tm2 e2))"
  using gate_count_mono [OF assms(1), of "draws (m_rng tm2)" "calls (m_rng tm2)" "length ts" 0]
  by (simp add: run_ticks_emits assms)

theorem complexity_monotone_witness:
  "complexity (m_params (injected_timer 0.1)) \<le> complexity (m_params (injected_timer 1)) \<and>
   m_rng (injected_timer 0.1) = m_rng (injected_timer 1) \<and> live live_engine \<and>
   emits (fst (run_ticks [0, 0.75, 1.5, 2.25] (injected_timer 0.1) live_engine)) \<le>
     emits (fst (run_ticks [0, 0.75, 1.5, 2.25] (injected_timer 1) live_engine))"
proof -
  have c: "complexity (m_params (injected_timer 0.1)) \<le> complexity (m_params (injected_timer 1))"
    by (simp add: injected_timer_def)
  have r: "m_rng (injected_timer 0.1) = m_rng (injected_timer 1)"
    by (simp add: injected_timer_def)
  show ?thesis
    using c r live_live_engine
      complexity_monotone [OF c r live_live_engine live_live_engine, of "[0, 0.75, 1.5, 2.25]"]
    by blast
qed

lemma first_two_ticks:
  assumes "tempo p = 80" and "complexity p = 1 / 2" and "live e"
    and "draws r (calls r) = 0.9" and "draws r (calls r + 1) = 0.2"
    and "draws r (calls r + 2) = 0.95" and "draws r (calls r + 3) = 0.3"
  shows "noteDuration p = 3 / 4 \<and>
    (\<exists>tm. melodyInterval (startGenerativeMelody p r e) = Some tm \<and> period tm = 750 \<and>
       (\<forall>r1 e1. live e1 \<longrightarrow>
          is_emit (fst (melody_callback (tm\<lparr>m_rng := r1\<rparr>) e1)) = (draws r1 (calls r1) > 1 / 2)) \<and>
       fst (run_ticks [t1, t2] tm (startGenerativeMelody p r e)) =
         [Emit \<lparr>noteIdx = 1, octave = 2,
                freq = Some (baseFrequency p * 2 powr (2 / 12) * 2)\<rparr>, Skip] \<and>
       calls (m_rng (fst (snd (run_ticks [t1, t2] tm (startGenerativeMelody p r e))))) =
         calls r + 4)"
proof -
  let ?tm = "\<lparr>period = noteDuration p * 1000, m_params = p, m_scaleNotes = scaleNotes p,
              m_rng = r\<rparr>"
  let ?e = "startGenerativeMelody p r e"
  have d: "noteDuration p = 3 / 4"
    using assms(1) by (simp add: noteDuration_def bpm_def)
  have c: "ctx e \<noteq> None" using assms(3) by (simp add: live_def)
  have tm: "melodyInterval ?e = Some ?tm" by (rule startGenerativeMelody_timer [OF c])
  have len: "length (scaleNotes p) = 8" and deg: "scaleNotes p ! 1 = 2"
    using scaleNotes_cases [of p] by auto
  have gate: "is_emit (fst (melody_callback (?tm\<lparr>m_rng := r1\<rparr>) e1)) = (draws r1 (calls r1) > 1 / 2)"
    if l: "live e1" for r1 e1
  proof (cases "draws r1 (calls r1) > 1 / 2")
    case True
    then have "draws (m_rng (?tm\<lparr>m_rng := r1\<rparr>)) (calls (m_rng (?tm\<lparr>m_rng := r1\<rparr>)))
        > 1 - complexity (m_params (?tm\<lparr>m_rng := r1\<rparr>))"
      using assms(2) by simp
    from callback_emit(1) [OF l this] True show ?thesis by simp
  next
    case False
    then have "\<not> draws (m_rng (?tm\<lparr>m_rng := r1\<rparr>)) (calls (m_rng (?tm\<lparr>m_rng := r1\<rparr>)))
        > 1 - complexity (m_params (?tm\<lparr>m_rng := r1\<rparr>))"
      using assms(2) by simp
    from callback_skip(1) [OF l this] False show ?thesis by simp
  qed
  have d5: "draws r (Suc (calls r)) = 1 / 5"
    using assms(5) by simp
  have idx: "\<lfloor>draws r (Suc (calls r)) * 8\<rfloor> = 1"
    unfolding d5 by simp
  have oct: "draws r (Suc (Suc (calls r))) * 10 > 7"
    using assms(6) by simp
  let ?a = "at_time t1 ?e"
  have la: "live ?a" using assms(3) by simp
  have g1: "draws (m_rng ?tm) (calls (m_rng ?tm)) > 1 - complexity (m_params ?tm)"
    using assms(2,4) by simp
  let ?tm1 = "?tm\<lparr>m_rng := r\<lparr>calls := calls r + 3\<rparr>\<rparr>"
  have r1: "fst (melody_callback ?tm ?a) =
      Emit \<lparr>noteIdx = 1, octave = 2, freq = Some (baseFrequency p * 2 powr (2 / 12) * 2)\<rparr>"
    unfolding callback_emit(1) [OF la g1]
    using idx oct len deg by (simp add: note_freq_def)
  have s1: "fst (snd (melody_callback ?tm ?a)) = ?tm1"
    unfolding callback_emit(2) [OF la g1] by simp
  let ?b = "at_time t2 (snd (snd (melody_callback ?tm ?a)))"
  have lb: "live ?b" using callback_live [OF la, of ?tm] by simp
  have g2: "\<not> draws (m_rng ?tm1) (calls (m_rng ?tm1)) > 1 - complexity (m_params ?tm1)"
    using assms(2,7) by simp
  have r2: "fst (melody_callback ?tm1 ?b) = Skip"
    by (rule callback_skip(1) [OF lb g2])
  have s2: "calls (m_rng (fst (snd (melody_callback ?tm1 ?b)))) = calls r + 4"
    unfolding callback_skip(2) [OF lb g2] by simp
  have run: "fst (run_ticks [t1, t2] ?tm ?e) =
         [Emit \<lparr>noteIdx = 1, octave = 2,
                freq = Some (baseFrequency p * 2 powr (2 / 12) * 2)\<rparr>, Skip]"
    using r1 r2 s1 by (simp add: split_beta)
  have pos: "calls (m_rng (fst (snd (run_ticks [t1, t2] ?tm ?e)))) = calls r + 4"
    using s1 s2 by (simp add: split_beta)
  have per: "period ?tm = 750" using d by simp
  from d tm per gate run pos show ?thesis by blast
qed

lemma alternating_run:
  assumes hi: "\<And>i. even i \<Longrightarrow> ds (k + i) > 1 / 2"
    and lo: "\<And>i. odd i \<Longrightarrow> \<not> ds (k + i) > 1 / 2"
  shows "live e \<Longrightarrow> draws (m_rng tm) = ds \<Longrightarrow> complexity (m_params tm) = 1 / 2 \<Longrightarrow>
    calls (m_rng tm) = k + j \<Longrightarrow>
    map is_emit (fst (run_ticks ts tm e)) = alternate (even j) (length ts)"
proof (induction ts arbitrary: tm e j)
  case Nil
  then show ?case by simp
next
  case (Cons t ts)
  let ?e = "at_time t e"
  have l: "live ?e" using Cons.prems(1) by simp
  have l1: "live (snd (snd (melody_callback tm ?e)))" by (rule callback_live [OF l])
  show ?case
  proof (cases "even j")
    case True
    have g: "draws (m_rng tm) (calls (m_rng tm)) > 1 - complexity (m_params tm)"
      using hi [OF True] Cons.prems(2,3,4) by simp
    let ?tm1 = "tm\<lparr>m_rng := (m_rng tm)\<lparr>calls := calls (m_rng tm) + 3\<rparr>\<rparr>"
    have r: "is_emit (fst (melody_callback tm ?e))"
      unfolding callback_emit(1) [OF l g] by simp
    have s: "fst (snd (melody_callback tm ?e)) = ?tm1"
      by (rule callback_emit(2) [OF l g])
    have "map is_emit (fst (run_ticks ts ?tm1 (snd (snd (melody_callback tm ?e))))) =
        alternate (even (j + 3)) (length ts)"
      by (rule Cons.IH [OF l1]) (use Cons.prems in simp_all)
    then show ?thesis
      using True r s by (simp add: run_ticks_Cons del: run_ticks.simps)
  next
    case False
    have g: "\<not> draws (m_rng tm) (calls (m_rng tm)) > 1 - complexity (m_params tm)"
      using lo [OF False] Cons.prems(2,3,4) by simp
    let ?tm1 = "tm\<lparr>m_rng := (m_rng tm)\<lparr>calls := calls (m_rng tm) + 1\<rparr>\<rparr>"
    have r: "\<not> is_emit (fst (melody_callback tm ?e))"
      unfolding callback_skip(1) [OF l g] by simp
    have s: "fst (snd (melody_callback tm ?e)) = ?tm1"
      by (rule callback_skip(2) [OF l g])
    have "map is_emit (fst (run_ticks ts ?tm1 (snd (snd (melody_callback tm ?e))))) =
        alternate (even (j + 1)) (length ts)"
      by (rule Cons.IH [OF l1]) (use Cons.prems in simp_all)
    then show ?thesis
      using False r s by (simp add: run_ticks_Cons del: run_ticks.simps)
  qed
qed

text \<open>
  C3. With a tempo of 80 the tick period is 0.75 seconds (750 milliseconds for the host
  timer); with a complexity of 0.5 a tick emits exactly when its first draw is greater than
  0.5. For a draw sequence that begins 0.9, 0.2, 0.95, 0.3 and goes on as it began, above 0.5
  at the even positions and not above it at the odd ones (as it does when the four draws
  repeat), the ticks are emit, skip, emit, skip, and so on for any number of ticks. The first
  tick takes 0.9 for the gate, 0.2 for the scale degree (index 1) and 0.95 for the octave
  (times 2), the second skips on 0.3, and so the gates fall on positions 0, 3, 4, 7, 8, ...
\<close>

theorem concrete_scenario:
  assumes "tempo p = 80" and "complexity p = 1 / 2" and "live e"
    and "draws r (calls r) = 0.9" and "draws r (calls r + 1) = 0.2"
    and "draws r (calls r + 2) = 0.95" and "draws r (calls r + 3) = 0.3"
    and "\<forall>i \<ge> 4. (even i \<longrightarrow> draws r (calls r + i) > 1 / 2) \<and>
                 (odd i \<longrightarrow> \<not> draws r (calls r + i) > 1 / 2)"
  shows "noteDuration p = 3 / 4 \<and>
    (\<exists>tm. melodyInterval (startGenerativeMelody p r e) = Some tm \<and> period tm = 750 \<and>
       (\<forall>r1 e1. live e1 \<longrightarrow>
          is_emit (fst (melody_callback (tm\<lparr>m_rng := r1\<rparr>) e1)) = (draws r1 (calls r1) > 1 / 2)) \<and>
       (\<forall>ts. map is_emit (fst (run_ticks ts tm (startGenerativeMelody p r e))) =
          alternate True (length ts)) \<and>
       fst (run_ticks [t1, t2] tm (startGenerativeMelody p r e)) =
         [Emit \<lparr>noteIdx = 1, octave = 2,
                freq = Some (baseFrequency p * 2 powr (2 / 12) * 2)\<rparr>, Skip])"
proof -
  let ?tm = "\<lparr>period = noteDuration p * 1000, m_params = p, m_scaleNotes = scaleNotes p,
              m_rng = r\<rparr>"
  let ?e = "startGenerativeMelody p r e"
  have c: "ctx e \<noteq> None" using assms(3) by (simp add: live_def)
  have tm: "melodyInterval ?e = Some ?tm" by (rule startGenerativeMelody_timer [OF c])
  from first_two_ticks [OF assms(1-7), of t1 t2] tm
  have d: "noteDuration p = 3 / 4" and per: "period ?tm = 750"
    and gate: "\<forall>r1 e1. live e1 \<longrightarrow>
          is_emit (fst (melody_callback (?tm\<lparr>m_rng := r1\<rparr>) e1)) = (draws r1 (calls r1) > 1 / 2)"
    and two: "fst (run_ticks [t1, t2] ?tm ?e) =
         [Emit \<lparr>noteIdx = 1, octave = 2,
                freq = Some (baseFrequency p * 2 powr (2 / 12) * 2)\<rparr>, Skip]"
    by auto
  have small: "i = 0 \<or> i = 1 \<or> i = 2 \<or> i = 3" if "i < 4" for i :: nat
    using that by linarith
  have hi: "draws r (calls r + i) > 1 / 2" if "even i" for i
  proof (cases "i < 4")
    case True
    from small [OF True] that assms(4,6) show ?thesis by auto
  next
    case False
    with that assms(8) show ?thesis by simp
  qed
  have lo: "\<not> draws r (calls r + i) > 1 / 2" if "odd i" for i
  proof (cases "i < 4")
    case True
    from small [OF True] that assms(5,7) show ?thesis by auto
  next
    case False
    with that assms(8) show ?thesis by simp
  qed
  have l: "live ?e" using assms(3) by simp
  have pat: "map is_emit (fst (run_ticks ts ?tm ?e)) = alternate True (length ts)" for ts
    using alternating_run [of "draws r" "calls r" ?e ?tm 0 ts, OF hi lo l] assms(2)
    by simp
  from d tm per gate pat two show ?thesis by blast
qed

lemma injected_cycle_draws:
  "draws injected_cycle i = [0.9, 0.2, 0.95, 0.3] ! (i mod 4)" "calls injected_cycle = 0"
  by (simp_all add: injected_cycle_def cycle_def)

theorem concrete_scenario_witness:
  "tempo fallback_params = 80 \<and> complexity fallback_params = 1 / 2 \<and> live live_engine \<and>
   draws injected_cycle (calls injected_cycle) = 0.9 \<and>
   draws injected_cycle (calls injected_cycle + 1) = 0.2 \<and>
   draws injected_cycle (calls injected_cycle + 2) = 0.95 \<and>
   draws injected_cycle (calls injected_cycle + 3) = 0.3 \<and>
   draws injected_cycle (calls injected_cycle + 4) = 0.9 \<and>
   draws injected_cycle (calls injected_cycle + 5) = 0.2 \<and>
   (\<exists>tm. melodyInterval (startGenerativeMelody fallback_params injected_cycle live_engine) =
            Some tm \<and> period tm = 750 \<and>
      map is_emit
        (fst (run_ticks [0, 0.75, 1.5, 2.25] tm
               (startGenerativeMelody fallback_params injected_cycle live_engine))) =
        [True, False, True, False])"
proof -
  have a: "tempo fallback_params = 80" "complexity fallback_params = 1 / 2"
    by (simp_all add: fallback_params_def)
  have b: "draws injected_cycle (calls injected_cycle) = 0.9"
    "draws injected_cycle (calls injected_cycle + 1) = 0.2"
    "draws injected_cycle (calls injected_cycle + 2) = 0.95"
    "draws injected_cycle (calls injected_cycle + 3) = 0.3"
    by (simp_all add: injected_cycle_draws)
  have b': "draws injected_cycle (calls injected_cycle + 4) = 0.9"
    "draws injected_cycle (calls injected_cycle + 5) = 0.2"
    by (simp_all add: injected_cycle_draws)
  have m: "i mod 4 = 0 \<or> i mod 4 = 1 \<or> i mod 4 = 2 \<or> i mod 4 = 3" for i :: nat
    by linarith
  have ev: "i mod 4 = 0 \<or> i mod 4 = 2" if "even i" for i :: nat
    using that by presburger
  have od: "i mod 4 = 1 \<or> i mod 4 = 3" if "odd i" for i :: nat
    using that by presburger
  have rest: "\<forall>i \<ge> 4. (even i \<longrightarrow> draws injected_cycle (calls injected_cycle + i) > 1 / 2) \<and>
      (odd i \<longrightarrow> \<not> draws injected_cycle (calls injected_cycle + i) > 1 / 2)"
  proof (intro allI impI conjI)
    fix i :: nat
    assume "even i"
    from ev [OF this] show "draws injected_cycle (calls injected_cycle + i) > 1 / 2"
      by (auto simp: injected_cycle_draws)
  next
    fix i :: nat
    assume "odd i"
    from od [OF this] show "\<not> draws injected_cycle (calls injected_cycle + i) > 1 / 2"
      by (auto simp: injected_cycle_draws)
  qed
  from concrete_scenario [OF a live_live_engine b rest, of 0 "0.75"]
  obtain tm where
    t: "melodyInterval (startGenerativeMelody fallback_params injected_cycle live_engine) = Some tm"
    "period tm = 750"
    and p: "\<forall>ts. map is_emit
        (fst (run_ticks ts tm (startGenerativeMelody fallback_params injected_cycle live_engine))) =
        alternate True (length ts)"
    by blast
  have "alternate True (length [0, 0.75, 1.5, 2.25 :: real]) = [True, False, True, False]"
    by simp
  with p have q: "map is_emit
        (fst (run_ticks [0, 0.75, 1.5, 2.25] tm
               (startGenerativeMelody fallback_params injected_cycle live_engine))) =
        [True, False, True, False]"
    by (simp del: run_ticks.simps)
  have ex: "\<exists>tm. melodyInterval (startGenerativeMelody fallback_params injected_cycle live_engine) =
            Some tm \<and> period tm = 750 \<and>
      map is_emit
        (fst (run_ticks [0, 0.75, 1.5, 2.25] tm
               (startGenerativeMelody fallback_params injected_cycle live_engine))) =
        [True, False, True, False]"
    using t q by (intro exI [of _ tm] conjI)
  show ?thesis
    by (intro conjI) (fact a b b' live_live_engine ex)+
qed

subsection \<open>Pad voice\<close>

lemma create_eq: "create k e = (length (nodes e), e\<lparr>nodes := nodes e @ [fresh k]\<rparr>)"
  by (simp add: create_def)

lemma create_appended:
  "create k (e\<lparr>nodes := xs @ ys\<rparr>) = (length xs + length ys, e\<lparr>nodes := xs @ (ys @ [fresh k])\<rparr>)"
  by (simp add: create_def)

lemma update_appended:
  "length xs \<le> i \<Longrightarrow>
   update i f (e\<lparr>nodes := xs @ ys\<rparr>) =
     e\<lparr>nodes := xs @ ys[i - length xs := f (ys ! (i - length xs))]\<rparr>"
  by (simp add: update_def list_update_append nth_append)

lemma pad_tone_result:
  "pad_tone rootHz t mg (e, r) mult =
    (e\<lparr>nodes := nodes e @
         [\<lparr>kind = OscillatorNode,
           wave = (if draws r (calls r) > 0.5 then Sine else Triangle),
           param = rootHz * mult, events = [], buffer = [], started = Some t, stopped = None,
           outputs = [Input (length (nodes e) + 1)]\<rparr>,
          \<lparr>kind = GainNode, wave = Sine, param = 0.08, events = [], buffer = [],
           started = None, stopped = None, outputs = [Input mg]\<rparr>,
          \<lparr>kind = OscillatorNode, wave = Sine, param = 0.1 + draws r (calls r + 1) * 0.2,
           events = [], buffer = [], started = Some t, stopped = None,
           outputs = [Input (length (nodes e) + 3)]\<rparr>,
          \<lparr>kind = GainNode, wave = Sine, param = 0.02, events = [], buffer = [],
           started = None, stopped = None, outputs = [GainParam (length (nodes e) + 1)]\<rparr>],
       currentOscillators := currentOscillators e @ [length (nodes e), length (nodes e) + 2]\<rparr>,
     r\<lparr>calls := calls r + 2\<rparr>)"
  by (simp add: pad_tone_def create_eq create_appended update_appended node_ops rng_call_def
      fresh_def)


lemma draw_at_range: "0 \<le> draw_at h \<and> draw_at h < 1"
  unfolding draw_at_def Let_def by linarith

lemma seeded_draws_range:
  "0 \<le> draws (getRandomFromSeed seed) i \<and> draws (getRandomFromSeed seed) i < 1"
  by (simp add: getRandomFromSeed_def draw_at_range)

lemma startPad_result:
  assumes "ctx e = Some c" and "masterGain e = Some mg"
  shows "startPad p r e =
    (e\<lparr>nodes := nodes e @
          pad_nodes (baseFrequency p / 2) (currentTime c) mg r (length (nodes e)) 0 @
          pad_nodes (baseFrequency p / 2) (currentTime c) mg r (length (nodes e)) 1 @
          pad_nodes (baseFrequency p / 2) (currentTime c) mg r (length (nodes e)) 2,
        currentOscillators := currentOscillators e @
          map (\<lambda>j. length (nodes e) + j) [0, 2, 4, 6, 8, 10]\<rparr>,
     r\<lparr>calls := calls r + 6\<rparr>)"
  using assms
  by (simp add: startPad_def chordOffsets_def pad_tone_result pad_nodes_def Let_def
      eval_nat_numeral)


lemma lfo_range: "0 \<le> d \<Longrightarrow> d < 1 \<Longrightarrow> 0.1 \<le> 0.1 + d * 0.2 \<and> 0.1 + d * 0.2 < (0.3::real)"
  by simp

text \<open>
  C9. With a context and a master gain present, starting the pad voice takes exactly six
  draws from the generator, two per tone: the first chooses the timbre of the tone and the
  second the rate of its modulator. The three tones sound at half the base frequency times
  1, 1.5 and 1.25 through a gain of 0.08; each modulator runs at 0.1 + draw * 0.2 Hz, which is
  in [0.1, 0.3) for draws in [0, 1), as those of the seeded generator are; and the three tones
  and three modulators are appended, tone before modulator, to the list of tracked
  oscillators.
\<close>

theorem pad_voice:
  assumes "ctx e = Some c" and "masterGain e = Some mg"
  shows "case startPad p r e of
      (e1, r1) \<Rightarrow>
        draws r1 = draws r \<and> calls r1 = calls r + 6 \<and>
        (let n = length (nodes e);
             d = (\<lambda>i. draws r (calls r + i));
             hz = baseFrequency p / 2;
             t = currentTime c;
             timbre = (\<lambda>x. if x > 0.5 then Sine else Triangle);
             nd = (\<lambda>i. nodes e1 ! i)
         in length (nodes e1) = n + 12 \<and> take n (nodes e1) = nodes e \<and>
            currentOscillators e1 =
              currentOscillators e @ [n, n + 2, n + 4, n + 6, n + 8, n + 10] \<and>
            map (\<lambda>i. (kind (nd i), wave (nd i), param (nd i), started (nd i), stopped (nd i),
                       outputs (nd i))) [n, n + 4, n + 8] =
              [(OscillatorNode, timbre (d 0), hz * 1, Some t, None, [Input (n + 1)]),
               (OscillatorNode, timbre (d 2), hz * 1.5, Some t, None, [Input (n + 5)]),
               (OscillatorNode, timbre (d 4), hz * 1.25, Some t, None, [Input (n + 9)])] \<and>
            map (\<lambda>i. (kind (nd i), param (nd i), outputs (nd i))) [n + 1, n + 5, n + 9] =
              [(GainNode, 0.08, [Input mg]), (GainNode, 0.08, [Input mg]),
               (GainNode, 0.08, [Input mg])] \<and>
            map (\<lambda>i. (kind (nd i), wave (nd i), param (nd i), started (nd i), stopped (nd i),
                       outputs (nd i))) [n + 2, n + 6, n + 10] =
              [(OscillatorNode, Sine, 0.1 + d 1 * 0.2, Some t, None, [Input (n + 3)]),
               (OscillatorNode, Sine, 0.1 + d 3 * 0.2, Some t, None, [Input (n + 7)]),
               (OscillatorNode, Sine, 0.1 + d 5 * 0.2, Some t, None, [Input (n + 11)])] \<and>
            map (\<lambda>i. (kind (nd i), param (nd i), outputs (nd i))) [n + 3, n + 7, n + 11] =
              [(GainNode, 0.02, [GainParam (n + 1)]), (GainNode, 0.02, [GainParam (n + 5)]),
               (GainNode, 0.02, [GainParam (n + 9)])] \<and>
            ((\<forall>i. 0 \<le> draws r i \<and> draws r i < 1) \<longrightarrow>
               (\<forall>i \<in> {n + 2, n + 6, n + 10}. 0.1 \<le> param (nd i) \<and> param (nd i) < 0.3)) \<and>
            (\<forall>seed. r = getRandomFromSeed seed \<longrightarrow>
               calls r1 = 6 \<and>
               (\<forall>i \<in> {n + 2, n + 6, n + 10}. 0.1 \<le> param (nd i) \<and> param (nd i) < 0.3)))"
proof -
  let ?n = "length (nodes e)"
  let ?e1 = "fst (startPad p r e)"
  note res = startPad_result [OF assms, of p r]
  have r1: "snd (startPad p r e) = r\<lparr>calls := calls r + 6\<rparr>"
    by (simp add: res)
  have dr: "draws (snd (startPad p r e)) = draws r"
    and cl: "calls (snd (startPad p r e)) = calls r + 6"
    by (simp_all add: r1)
  have len: "length (nodes ?e1) = ?n + 12" and tk: "take ?n (nodes ?e1) = nodes e"
    by (simp_all add: res pad_nodes_def)
  have cur: "currentOscillators ?e1 =
      currentOscillators e @ [?n, ?n + 2, ?n + 4, ?n + 6, ?n + 8, ?n + 10]"
    by (simp add: res)
  have nds: "nodes ?e1 = nodes e @
       pad_nodes (baseFrequency p / 2) (currentTime c) mg r ?n 0 @
       pad_nodes (baseFrequency p / 2) (currentTime c) mg r ?n 1 @
       pad_nodes (baseFrequency p / 2) (currentTime c) mg r ?n 2"
    by (simp add: res)
  have tones: "map (\<lambda>i. (kind (nodes ?e1 ! i), wave (nodes ?e1 ! i), param (nodes ?e1 ! i),
        started (nodes ?e1 ! i), stopped (nodes ?e1 ! i), outputs (nodes ?e1 ! i)))
        [?n, ?n + 4, ?n + 8] =
      [(OscillatorNode, (if draws r (calls r + 0) > 0.5 then Sine else Triangle),
        baseFrequency p / 2 * 1, Some (currentTime c), None, [Input (?n + 1)]),
       (OscillatorNode, (if draws r (calls r + 2) > 0.5 then Sine else Triangle),
        baseFrequency p / 2 * 1.5, Some (currentTime c), None, [Input (?n + 5)]),
       (OscillatorNode, (if draws r (calls r + 4) > 0.5 then Sine else Triangle),
        baseFrequency p / 2 * 1.25, Some (currentTime c), None, [Input (?n + 9)])]"
    by (simp add: nds nth_append pad_nodes_def chordOffsets_def eval_nat_numeral)
  have gains: "map (\<lambda>i. (kind (nodes ?e1 ! i), param (nodes ?e1 ! i), outputs (nodes ?e1 ! i)))
        [?n + 1, ?n + 5, ?n + 9] =
      [(GainNode, 0.08, [Input mg]), (GainNode, 0.08, [Input mg]), (GainNode, 0.08, [Input mg])]"
    by (simp add: nds nth_append pad_nodes_def eval_nat_numeral)
  have lfos: "map (\<lambda>i. (kind (nodes ?e1 ! i), wave (nodes ?e1 ! i), param (nodes ?e1 ! i),
        started (nodes ?e1 ! i), stopped (nodes ?e1 ! i), outputs (nodes ?e1 ! i)))
        [?n + 2, ?n + 6, ?n + 10] =
      [(OscillatorNode, Sine, 0.1 + draws r (calls r + 1) * 0.2, Some (currentTime c), None,
        [Input (?n + 3)]),
       (OscillatorNode, Sine, 0.1 + draws r (calls r + 3) * 0.2, Some (currentTime c), None,
        [Input (?n + 7)]),
       (OscillatorNode, Sine, 0.1 + draws r (calls r + 5) * 0.2, Some (currentTime c), None,
        [Input (?n + 11)])]"
    by (simp add: nds nth_append pad_nodes_def eval_nat_numeral)
  have depths: "map (\<lambda>i. (kind (nodes ?e1 ! i), param (nodes ?e1 ! i), outputs (nodes ?e1 ! i)))
        [?n + 3, ?n + 7, ?n + 11] =
      [(GainNode, 0.02, [GainParam (?n + 1)]), (GainNode, 0.02, [GainParam (?n + 5)]),
       (GainNode, 0.02, [GainParam (?n + 9)])]"
    by (simp add: nds nth_append pad_nodes_def eval_nat_numeral)
  have rates: "(\<forall>i. 0 \<le> draws r i \<and> draws r i < 1) \<longrightarrow>
      (\<forall>i \<in> {?n + 2, ?n + 6, ?n + 10}.
         0.1 \<le> param (nodes ?e1 ! i) \<and> param (nodes ?e1 ! i) < 0.3)"
    using lfos lfo_range by simp
  have seeded: "\<forall>seed. r = getRandomFromSeed seed \<longrightarrow>
      calls (snd (startPad p r e)) = 6 \<and>
      (\<forall>i \<in> {?n + 2, ?n + 6, ?n + 10}.
         0.1 \<le> param (nodes ?e1 ! i) \<and> param (nodes ?e1 ! i) < 0.3)"
  proof (intro allI impI)
    fix seed
    assume s: "r = getRandomFromSeed seed"
    have "\<forall>i. 0 \<le> draws r i \<and> draws r i < 1"
      using s seeded_draws_range by simp
    moreover have "calls r = 0" using s by (simp add: getRandomFromSeed_def)
    ultimately show "calls (snd (startPad p r e)) = 6 \<and>
      (\<forall>i \<in> {?n + 2, ?n + 6, ?n + 10}.
         0.1 \<le> param (nodes ?e1 ! i) \<and> param (nodes ?e1 ! i) < 0.3)"
      using rates cl by simp
  qed
  show ?thesis
    unfolding split_beta Let_def
    using dr cl len tk cur tones gains lfos depths rates seeded
    by blast
qed

lemma live_engine_parts:
  "ctx live_engine = Some \<lparr>state = Running, currentTime = 0, sampleRate = 44100\<rparr>"
  "masterGain live_engine = Some 0"
  by (simp_all add: live_engine_def)

theorem pad_voice_witness:
  "ctx live_engine = Some \<lparr>state = Running, currentTime = 0, sampleRate = 44100\<rparr> \<and>
   masterGain live_engine = Some 0 \<and>
   calls (snd (startPad fallback_params injected live_engine)) = 6 \<and>
   currentOscillators (fst (startPad fallback_params injected live_engine)) = [1, 3, 5, 7, 9, 11] \<and>
   map (\<lambda>i. (wave (nodes (fst (startPad fallback_params injected live_engine)) ! i),
              param (nodes (fst (startPad fallback_params injected live_engine)) ! i)))
     [1, 5, 9] = [(Sine, 130.815), (Sine, 196.2225), (Triangle, 163.51875)] \<and>
   map (\<lambda>i. param (nodes (fst (startPad fallback_params injected live_engine)) ! i))
     [3, 7, 11] = [0.14, 0.16, 0.1]"
proof -
  have n: "length (nodes live_engine) = 1" "currentOscillators live_engine = []"
    by (simp_all add: live_engine_def)
  have b: "baseFrequency fallback_params = 261.63" by (simp add: fallback_params_def)
  show ?thesis
    using pad_voice [OF live_engine_parts, where p = fallback_params and r = injected] live_engine_parts
    by (simp add: split_beta Let_def injected_def replay_def n b numeral_3_eq_3)
qed

subsection \<open>Lifecycle\<close>

lemma nodes_update_nth:
  "j < length (nodes e) \<Longrightarrow>
   nodes (update i f e) ! j = (if j = i then f (nodes e ! i) else nodes e ! j)"
  by (simp add: update_def nth_list_update)

lemma update_update: "update i g (update i f e) = update i (\<lambda>n. g (f n)) e"
proof (cases "i < length (nodes e)")
  case True
  then show ?thesis by (simp add: update_def)
next
  case False
  then show ?thesis by (simp add: update_def list_update_beyond)
qed

lemma stop_voice_result:
  "stop_voice i e =
     Inr (if started (nodes e ! i) = None then e
          else update i (\<lambda>n. n\<lparr>stopped := Some 0, outputs := []\<rparr>) e)"
  by (simp add: stop_voice_def stop_node_def disconnect_def update_update)

lemma forEach_stop_voice:
  "\<exists>e1. forEach stop_voice ids e = Inr e1 \<and>
     ctx e1 = ctx e \<and> isPlaying e1 = isPlaying e \<and> masterGain e1 = masterGain e \<and>
     melodyInterval e1 = melodyInterval e \<and> reverbNode e1 = reverbNode e \<and>
     delayNode e1 = delayNode e \<and> currentOscillators e1 = currentOscillators e \<and>
     timeouts e1 = timeouts e \<and> length (nodes e1) = length (nodes e) \<and>
     (\<forall>j < length (nodes e).
        started (nodes e1 ! j) = started (nodes e ! j) \<and>
        (j \<in> set ids \<and> started (nodes e ! j) \<noteq> None \<longrightarrow>
           stopped (nodes e1 ! j) = Some 0 \<and> outputs (nodes e1 ! j) = []) \<and>
        (j \<notin> set ids \<longrightarrow> nodes e1 ! j = nodes e ! j))"
proof (induction ids arbitrary: e)
  case Nil
  then show ?case by simp
next
  case (Cons i ids)
  let ?e = "if started (nodes e ! i) = None then e
          else update i (\<lambda>n. n\<lparr>stopped := Some 0, outputs := []\<rparr>) e"
  have sv: "stop_voice i e = Inr ?e" by (rule stop_voice_result)
  have f: "ctx ?e = ctx e" "isPlaying ?e = isPlaying e" "masterGain ?e = masterGain e"
    "melodyInterval ?e = melodyInterval e" "reverbNode ?e = reverbNode e"
    "delayNode ?e = delayNode e" "currentOscillators ?e = currentOscillators e"
    "timeouts ?e = timeouts e" "length (nodes ?e) = length (nodes e)"
    by simp_all
  have n: "started (nodes ?e ! j) = started (nodes e ! j) \<and>
      (j = i \<and> started (nodes e ! j) \<noteq> None \<longrightarrow>
         stopped (nodes ?e ! j) = Some 0 \<and> outputs (nodes ?e ! j) = []) \<and>
      (j \<noteq> i \<longrightarrow> nodes ?e ! j = nodes e ! j)"
    if "j < length (nodes e)" for j
    using that by (simp add: nodes_update_nth)
  from Cons.IH [of ?e] obtain e1 where
    fe: "forEach stop_voice ids ?e = Inr e1"
    and g: "ctx e1 = ctx ?e" "isPlaying e1 = isPlaying ?e" "masterGain e1 = masterGain ?e"
      "melodyInterval e1 = melodyInterval ?e" "reverbNode e1 = reverbNode ?e"
      "delayNode e1 = delayNode ?e" "currentOscillators e1 = currentOscillators ?e"
      "timeouts e1 = timeouts ?e" "length (nodes e1) = length (nodes ?e)"
    and m: "\<forall>j < length (nodes ?e).
        started (nodes e1 ! j) = started (nodes ?e ! j) \<and>
        (j \<in> set ids \<and> started (nodes ?e ! j) \<noteq> None \<longrightarrow>
           stopped (nodes e1 ! j) = Some 0 \<and> outputs (nodes e1 ! j) = []) \<and>
        (j \<notin> set ids \<longrightarrow> nodes e1 ! j = nodes ?e ! j)"
    by blast
  have run: "forEach stop_voice (i # ids) e = Inr e1"
    using sv fe by simp
  have all: "started (nodes e1 ! j) = started (nodes e ! j) \<and>
        (j \<in> set (i # ids) \<and> started (nodes e ! j) \<noteq> None \<longrightarrow>
           stopped (nodes e1 ! j) = Some 0 \<and> outputs (nodes e1 ! j) = []) \<and>
        (j \<notin> set (i # ids) \<longrightarrow> nodes e1 ! j = nodes e ! j)"
    if j: "j < length (nodes e)" for j
  proof -
    have j': "j < length (nodes ?e)" using j f(9) by simp
    from m j' have mj: "started (nodes e1 ! j) = started (nodes ?e ! j)"
      "j \<in> set ids \<and> started (nodes ?e ! j) \<noteq> None \<longrightarrow>
           stopped (nodes e1 ! j) = Some 0 \<and> outputs (nodes e1 ! j) = []"
      "j \<notin> set ids \<longrightarrow> nodes e1 ! j = nodes ?e ! j"
      by blast+
    from n [OF j] have nj: "started (nodes ?e ! j) = started (nodes e ! j)"
      "j = i \<and> started (nodes e ! j) \<noteq> None \<longrightarrow>
         stopped (nodes ?e ! j) = Some 0 \<and> outputs (nodes ?e ! j) = []"
      "j \<noteq> i \<longrightarrow> nodes ?e ! j = nodes e ! j"
      by blast+
    show ?thesis
      using mj nj by (cases "j \<in> set ids") auto
  qed
  have gf: "ctx e1 = ctx e" "isPlaying e1 = isPlaying e" "masterGain e1 = masterGain e"
    "melodyInterval e1 = melodyInterval e" "reverbNode e1 = reverbNode e"
    "delayNode e1 = delayNode e" "currentOscillators e1 = currentOscillators e"
    "timeouts e1 = timeouts e" "length (nodes e1) = length (nodes e)"
    unfolding g f by (rule refl)+
  show ?case
    using run gf all by blast
qed


lemma stop_result:
  "\<exists>e1. stop e = Inr e1 \<and>
     \<not> isPlaying e1 \<and> melodyInterval e1 = None \<and> currentOscillators e1 = [] \<and>
     masterGain e1 = None \<and> ctx e1 = ctx e \<and> reverbNode e1 = reverbNode e \<and>
     delayNode e1 = delayNode e \<and> timeouts e1 = timeouts e \<and>
     length (nodes e1) = length (nodes e) \<and>
     (\<forall>j < length (nodes e).
        j \<in> set (currentOscillators e) \<and> started (nodes e ! j) \<noteq> None \<longrightarrow>
          stopped (nodes e1 ! j) \<noteq> None \<and> outputs (nodes e1 ! j) = []) \<and>
     (\<forall>mg. masterGain e = Some mg \<and> mg < length (nodes e) \<longrightarrow> outputs (nodes e1 ! mg) = [])"
proof -
  let ?e1 = "e\<lparr>isPlaying := False\<rparr>"
  let ?e2 = "case melodyInterval ?e1 of Some tm \<Rightarrow> ?e1\<lparr>melodyInterval := None\<rparr> | None \<Rightarrow> ?e1"
  have e2: "isPlaying ?e2 = False" "melodyInterval ?e2 = None" "ctx ?e2 = ctx e"
    "masterGain ?e2 = masterGain e" "reverbNode ?e2 = reverbNode e" "delayNode ?e2 = delayNode e"
    "currentOscillators ?e2 = currentOscillators e" "timeouts ?e2 = timeouts e"
    "nodes ?e2 = nodes e"
    by (simp_all split: option.splits)
  from forEach_stop_voice [of "currentOscillators ?e2" ?e2] obtain e3 where
    fe: "forEach stop_voice (currentOscillators ?e2) ?e2 = Inr e3"
    and g: "ctx e3 = ctx ?e2" "isPlaying e3 = isPlaying ?e2" "masterGain e3 = masterGain ?e2"
      "melodyInterval e3 = melodyInterval ?e2" "reverbNode e3 = reverbNode ?e2"
      "delayNode e3 = delayNode ?e2" "currentOscillators e3 = currentOscillators ?e2"
      "timeouts e3 = timeouts ?e2" "length (nodes e3) = length (nodes ?e2)"
    and m: "\<forall>j < length (nodes ?e2).
        started (nodes e3 ! j) = started (nodes ?e2 ! j) \<and>
        (j \<in> set (currentOscillators ?e2) \<and> started (nodes ?e2 ! j) \<noteq> None \<longrightarrow>
           stopped (nodes e3 ! j) = Some 0 \<and> outputs (nodes e3 ! j) = []) \<and>
        (j \<notin> set (currentOscillators ?e2) \<longrightarrow> nodes e3 ! j = nodes ?e2 ! j)"
    by blast
  have h: "ctx e3 = ctx e" "isPlaying e3 = False" "masterGain e3 = masterGain e"
      "melodyInterval e3 = None" "reverbNode e3 = reverbNode e"
      "delayNode e3 = delayNode e" "timeouts e3 = timeouts e"
      "length (nodes e3) = length (nodes e)"
    unfolding g e2 by (rule refl)+
  have m': "j \<in> set (currentOscillators e) \<and> started (nodes e ! j) \<noteq> None \<longrightarrow>
           stopped (nodes e3 ! j) = Some 0 \<and> outputs (nodes e3 ! j) = []"
    if "j < length (nodes e)" for j
    using m that unfolding e2 by blast
  let ?e4 = "e3\<lparr>currentOscillators := []\<rparr>"
  show ?thesis
  proof (cases "masterGain e")
    case None
    then have "stop e = Inr ?e4"
      using fe h(3) by (simp add: stop_def Let_def)
    then show ?thesis using h m' None by auto
  next
    case (Some mg)
    let ?e5 = "(disconnect mg ?e4)\<lparr>masterGain := None\<rparr>"
    have st: "stop e = Inr ?e5"
      using fe h(3) Some by (simp add: stop_def Let_def)
    have n5: "nodes ?e5 ! j = (if j = mg then (nodes e3 ! mg)\<lparr>outputs := []\<rparr> else nodes e3 ! j)"
      if "j < length (nodes e)" for j
      using that h(8) by (simp add: disconnect_def nodes_update_nth)
    have f5: "\<not> isPlaying ?e5" "melodyInterval ?e5 = None" "currentOscillators ?e5 = []"
      "masterGain ?e5 = None" "ctx ?e5 = ctx e" "reverbNode ?e5 = reverbNode e"
      "delayNode ?e5 = delayNode e" "timeouts ?e5 = timeouts e"
      "length (nodes ?e5) = length (nodes e)"
      using h by (simp_all add: disconnect_def)
    have v5: "j \<in> set (currentOscillators e) \<and> started (nodes e ! j) \<noteq> None \<longrightarrow>
          stopped (nodes ?e5 ! j) \<noteq> None \<and> outputs (nodes ?e5 ! j) = []"
      if "j < length (nodes e)" for j
      using m' [OF that] n5 [OF that] by auto
    have g5: "\<forall>mg'. masterGain e = Some mg' \<and> mg' < length (nodes e) \<longrightarrow>
        outputs (nodes ?e5 ! mg') = []"
      using Some n5 by auto
    show ?thesis
      using st f5 v5 g5 by blast
  qed
qed

lemma stop_stopped:
  assumes "\<not> isPlaying e" and "melodyInterval e = None" and "currentOscillators e = []"
    and "masterGain e = None"
  shows "stop e = Inr e"
  using assms by (cases e) (simp add: stop_def)


lemma setupEffects_fields:
  "ctx (setupEffects rand e) = ctx e" "isPlaying (setupEffects rand e) = isPlaying e"
  "masterGain (setupEffects rand e) = masterGain e"
  "melodyInterval (setupEffects rand e) = melodyInterval e"
  "currentOscillators (setupEffects rand e) = currentOscillators e"
  "timeouts (setupEffects rand e) = timeouts e"
  by (simp_all add: setupEffects_def create_eq node_ops Let_def split_beta
      split: option.splits)

lemma setupEffects_nodes:
  "length (nodes e) \<le> length (nodes (setupEffects rand e))"
  by (simp add: setupEffects_def create_eq node_ops Let_def split_beta
      split: option.splits)

lemma setupEffects_bus:
  "ctx e \<noteq> None \<Longrightarrow> masterGain e \<noteq> None \<Longrightarrow>
   reverbNode (setupEffects rand e) \<noteq> None \<and> delayNode (setupEffects rand e) \<noteq> None"
  by (auto simp add: setupEffects_def create_eq node_ops Let_def split_beta
      split: option.splits)


lemma resume_result:
  assumes "ctx e = Some c" and "state c = Suspended \<longrightarrow> out = Resolved"
  shows "resume out e =
    (Completed, e\<lparr>ctx := Some (c\<lparr>state := (if state c = Suspended then Running else state c)\<rparr>)\<rparr>)"
  using assms by (cases e) (auto simp: resume_def)

lemma resume_blocked:
  assumes "ctx e = Some c" and "state c = Suspended" and "out \<noteq> Resolved"
  shows "snd (resume out e) = e \<and> fst (resume out e) \<noteq> Completed"
  using assms by (cases out) (simp_all add: resume_def)

lemma update_stopped:
  assumes "\<And>n. stopped (f n) = stopped n" and "j < length (nodes e)"
  shows "stopped (nodes (update i f e) ! j) = stopped (nodes e ! j)"
  using assms by (simp add: nodes_update_nth)

lemma ops_stopped:
  assumes "j < length (nodes e)"
  shows "stopped (nodes (set_wave i w e) ! j) = stopped (nodes e ! j)"
    "stopped (nodes (set_param i v e) ! j) = stopped (nodes e ! j)"
    "stopped (nodes (set_buffer i b e) ! j) = stopped (nodes e ! j)"
    "stopped (nodes (schedule i a e) ! j) = stopped (nodes e ! j)"
    "stopped (nodes (connect i t e) ! j) = stopped (nodes e ! j)"
    "stopped (nodes (start i tm e) ! j) = stopped (nodes e ! j)"
  using assms by (simp_all add: node_ops nodes_update_nth)

lemma ops_length [simp]:
  "length (nodes (set_wave i w e)) = length (nodes e)"
  "length (nodes (set_param i v e)) = length (nodes e)"
  "length (nodes (set_buffer i b e)) = length (nodes e)"
  "length (nodes (schedule i a e)) = length (nodes e)"
  "length (nodes (connect i t e)) = length (nodes e)"
  "length (nodes (start i tm e)) = length (nodes e)"
  by (simp_all add: node_ops)

lemma setupEffects_stopped:
  "j < length (nodes e) \<Longrightarrow>
   stopped (nodes (setupEffects rand e) ! j) = stopped (nodes e ! j)"
  by (simp add: setupEffects_def create_eq Let_def split_beta ops_stopped nth_append
      split: option.splits)

lemma play_result:
  assumes "ctx e = Some c" and "state c = Suspended \<longrightarrow> resume_outcome h = Resolved"
  shows "\<exists>E. play p memoryId h e = (Completed, E) \<and> isPlaying E \<and>
     ctx E = Some (c\<lparr>state := (if state c = Suspended then Running else state c)\<rparr>) \<and>
     masterGain E = Some (length (nodes e)) \<and>
     reverbNode E \<noteq> None \<and> delayNode E \<noteq> None \<and>
     melodyInterval E =
       Some \<lparr>period = noteDuration p * 1000, m_params = p, m_scaleNotes = scaleNotes p,
             m_rng = (getRandomFromSeed memoryId)\<lparr>calls := 6\<rparr>\<rparr> \<and>
     length (currentOscillators E) = 6 \<and>
     (\<forall>i \<in> set (currentOscillators E). length (nodes e) < i \<and> i < length (nodes E)) \<and>
     (\<forall>j < length (nodes e).
        j \<in> set (currentOscillators e) \<and> started (nodes e ! j) \<noteq> None \<longrightarrow>
          stopped (nodes E ! j) \<noteq> None) \<and>
     pad_choices E = seeded_pad p memoryId"
proof -
  let ?c = "c\<lparr>state := (if state c = Suspended then Running else state c)\<rparr>"
  let ?e1 = "e\<lparr>ctx := Some ?c\<rparr>"
  have r1: "resume (resume_outcome h) e = (Completed, ?e1)"
    by (rule resume_result [OF assms])
  from stop_result [of ?e1] obtain e2 where
    st: "stop ?e1 = Inr e2"
    and f2: "\<not> isPlaying e2" "melodyInterval e2 = None" "currentOscillators e2 = []"
      "masterGain e2 = None" "ctx e2 = Some ?c" "length (nodes e2) = length (nodes e)"
    and v2: "\<forall>j < length (nodes e).
        j \<in> set (currentOscillators e) \<and> started (nodes e ! j) \<noteq> None \<longrightarrow>
          stopped (nodes e2 ! j) \<noteq> None"
    by auto
  let ?mg = "length (nodes e)"
  let ?t = "currentTime c"
  let ?e7 = "connect ?mg Destination
      (schedule ?mg (LinearRampToValueAtTime 0.5 (?t + 1.0))
        (schedule ?mg (SetValueAtTime 0 ?t)
          ((snd (create GainNode e2))\<lparr>masterGain := Some ?mg\<rparr>)))"
  let ?e8 = "setupEffects (random h) ?e7"
  let ?r = "getRandomFromSeed memoryId"
  let ?E = "(startGenerativeMelody p (snd (startPad p ?r ?e8)) (fst (startPad p ?r ?e8)))
      \<lparr>isPlaying := True\<rparr>"
  have pl: "play p memoryId h e = (Completed, ?E)"
    using assms(1) r1 st f2(6) by (simp add: play_def create_eq Let_def split_beta)
  have f7: "ctx ?e7 = Some ?c" "masterGain ?e7 = Some ?mg" "currentOscillators ?e7 = []"
    "length (nodes ?e7) = Suc (length (nodes e))"
    using f2 by (simp_all add: node_ops create_eq)
  have f8: "ctx ?e8 = Some ?c" "masterGain ?e8 = Some ?mg" "currentOscillators ?e8 = []"
    "reverbNode ?e8 \<noteq> None" "delayNode ?e8 \<noteq> None"
    "Suc (length (nodes e)) \<le> length (nodes ?e8)"
    using f7 setupEffects_bus [of ?e7 "random h"] setupEffects_nodes [of ?e7 "random h"]
    by (simp_all add: setupEffects_fields)
  note sp = startPad_result [OF f8(1,2), of p ?r]
  let ?N = "length (nodes ?e8)"
  have c0: "calls ?r = 0" by (simp add: getRandomFromSeed_def)
  have E: "isPlaying ?E" "ctx ?E = Some ?c" "masterGain ?E = Some ?mg"
    "reverbNode ?E \<noteq> None" "delayNode ?E \<noteq> None"
    "melodyInterval ?E =
       Some \<lparr>period = noteDuration p * 1000, m_params = p, m_scaleNotes = scaleNotes p,
             m_rng = ?r\<lparr>calls := 6\<rparr>\<rparr>"
    "currentOscillators ?E = map (\<lambda>j. ?N + j) [0, 2, 4, 6, 8, 10]"
    "nodes ?E = nodes ?e8 @
          pad_nodes (baseFrequency p / 2) ?t ?mg ?r ?N 0 @
          pad_nodes (baseFrequency p / 2) ?t ?mg ?r ?N 1 @
          pad_nodes (baseFrequency p / 2) ?t ?mg ?r ?N 2"
    unfolding sp using f8 c0 by (simp_all add: startGenerativeMelody_def)
  have len: "length (currentOscillators ?E) = 6"
    unfolding E(7) by simp
  have rng: "\<forall>i \<in> set (currentOscillators ?E). length (nodes e) < i \<and> i < length (nodes ?E)"
    unfolding E(7,8) using f8(6) by (auto simp: pad_nodes_def)
  have pc: "pad_choices ?E = seeded_pad p memoryId"
    unfolding pad_choices_def E(7,8) seeded_pad_def Let_def
    by (simp add: nth_append pad_nodes_def chordOffsets_def c0 eval_nat_numeral)
  have old: "stopped (nodes ?E ! j) = stopped (nodes e2 ! j)" if j: "j < length (nodes e)" for j
  proof -
    have "stopped (nodes ?e7 ! j) = stopped (nodes e2 ! j)"
      using j f2(6) by (simp add: ops_stopped create_eq nth_append)
    moreover have "stopped (nodes ?e8 ! j) = stopped (nodes ?e7 ! j)"
      using j f7(4) by (simp add: setupEffects_stopped)
    moreover have "nodes ?E ! j = nodes ?e8 ! j"
      unfolding E(8) using j f8(6) by (simp add: nth_append)
    ultimately show ?thesis by simp
  qed
  have torn: "\<forall>j < length (nodes e).
        j \<in> set (currentOscillators e) \<and> started (nodes e ! j) \<noteq> None \<longrightarrow>
          stopped (nodes ?E ! j) \<noteq> None"
    using v2 old by simp
  show ?thesis
    using pl E(1-6) len rng torn pc by blast
qed



lemma run_ticks_results:
  assumes "length ts1 = length ts2"
  shows "live e1 \<Longrightarrow> live e2 \<Longrightarrow> fst (run_ticks ts1 tm e1) = fst (run_ticks ts2 tm e2) \<and>
     fst (snd (run_ticks ts1 tm e1)) = fst (snd (run_ticks ts2 tm e2))"
  using assms
proof (induction ts1 ts2 arbitrary: tm e1 e2 rule: list_induct2)
  case Nil
  then show ?case by simp
next
  case (Cons t1 ts1 t2 ts2)
  let ?a = "at_time t1 e1" and ?b = "at_time t2 e2"
  have la: "live ?a" and lb: "live ?b" using Cons.prems by simp_all
  have same: "fst (melody_callback tm ?a) = fst (melody_callback tm ?b)"
    "fst (snd (melody_callback tm ?a)) = fst (snd (melody_callback tm ?b))"
    using callback_result [OF la, of tm] callback_result [OF lb, of tm] by simp_all
  note IH = Cons.IH [OF callback_live [OF la, of tm] callback_live [OF lb, of tm],
      of "fst (snd (melody_callback tm ?a))"]
  show ?case
    using IH same by (simp add: run_ticks_Cons del: run_ticks.simps)
qed

text \<open>
  C1. Two sessions started by play with the same identifier and the same parameters, from
  any two engines that have a context whose resume completes, with whatever the hosts supply
  for the unseeded randomness of the reverb and for the clock: the generators handed to the
  melody are equal (the draws of the seed, six of them consumed by the pad), the timbres and
  frequencies of the six pad oscillators are equal, the melody timers are equal, and any two
  runs of the same number of ticks give the same emit and skip decisions with the same scale
  degrees, octaves and frequencies.
\<close>

theorem play_deterministic:
  assumes "ctx e1 = Some c1" and "ctx e2 = Some c2"
    and "state c1 = Suspended \<longrightarrow> resume_outcome h1 = Resolved"
    and "state c2 = Suspended \<longrightarrow> resume_outcome h2 = Resolved"
    and "length ts1 = length ts2"
  shows "\<exists>E1 E2 tm.
     play p memoryId h1 e1 = (Completed, E1) \<and> play p memoryId h2 e2 = (Completed, E2) \<and>
     melodyInterval E1 = Some tm \<and> melodyInterval E2 = Some tm \<and>
     draws (m_rng tm) = draws (getRandomFromSeed memoryId) \<and> calls (m_rng tm) = 6 \<and>
     pad_choices E1 = pad_choices E2 \<and>
     fst (run_ticks ts1 tm E1) = fst (run_ticks ts2 tm E2) \<and>
     m_rng (fst (snd (run_ticks ts1 tm E1))) = m_rng (fst (snd (run_ticks ts2 tm E2)))"
proof -
  let ?tm = "\<lparr>period = noteDuration p * 1000, m_params = p, m_scaleNotes = scaleNotes p,
             m_rng = (getRandomFromSeed memoryId)\<lparr>calls := 6\<rparr>\<rparr>"
  from play_result [OF assms(1,3), of p memoryId] obtain E1 where
    p1: "play p memoryId h1 e1 = (Completed, E1)" and l1: "isPlaying E1"
    "ctx E1 = Some (c1\<lparr>state := (if state c1 = Suspended then Running else state c1)\<rparr>)"
    "masterGain E1 = Some (length (nodes e1))"
    and t1: "melodyInterval E1 = Some ?tm" and c1: "pad_choices E1 = seeded_pad p memoryId"
    by blast
  from play_result [OF assms(2,4), of p memoryId] obtain E2 where
    p2: "play p memoryId h2 e2 = (Completed, E2)" and l2: "isPlaying E2"
    "ctx E2 = Some (c2\<lparr>state := (if state c2 = Suspended then Running else state c2)\<rparr>)"
    "masterGain E2 = Some (length (nodes e2))"
    and t2: "melodyInterval E2 = Some ?tm" and c2: "pad_choices E2 = seeded_pad p memoryId"
    by blast
  have live: "live E1" "live E2"
    using l1 l2 by (simp_all add: live_def)
  have d: "draws (m_rng ?tm) = draws (getRandomFromSeed memoryId)" "calls (m_rng ?tm) = 6"
    by simp_all
  have pc: "pad_choices E1 = pad_choices E2" using c1 c2 by simp
  have run: "fst (run_ticks ts1 ?tm E1) = fst (run_ticks ts2 ?tm E2)"
    "m_rng (fst (snd (run_ticks ts1 ?tm E1))) = m_rng (fst (snd (run_ticks ts2 ?tm E2)))"
    using run_ticks_results [OF assms(5) live, of ?tm] by simp_all
  show ?thesis
    using p1 p2 t1 t2 d pc run by blast
qed

lemma play_inputs:
  "ctx suspended_session = Some \<lparr>state = Suspended, currentTime = 12, sampleRate = 44100\<rparr>"
  "ctx live_engine = Some \<lparr>state = Running, currentTime = 0, sampleRate = 44100\<rparr>"
  "resume_outcome ready_host = Resolved"
  "resume_outcome pending_host = Pending"
  by (simp_all add: suspended_session_def live_engine_def ready_host_def pending_host_def)

theorem play_deterministic_witness:
  "ctx suspended_session = Some \<lparr>state = Suspended, currentTime = 12, sampleRate = 44100\<rparr> \<and>
   ctx live_engine = Some \<lparr>state = Running, currentTime = 0, sampleRate = 44100\<rparr> \<and>
   resume_outcome ready_host = Resolved \<and>
   length [0, 0.75, 1.5 :: real] = length [20, 21, 22 :: real] \<and>
   (\<exists>E1 E2 tm.
     play fallback_params memory_id ready_host suspended_session = (Completed, E1) \<and>
     play fallback_params memory_id pending_host live_engine = (Completed, E2) \<and>
     melodyInterval E1 = Some tm \<and> melodyInterval E2 = Some tm \<and>
     pad_choices E1 = pad_choices E2 \<and>
     fst (run_ticks [0, 0.75, 1.5] tm E1) = fst (run_ticks [20, 21, 22] tm E2))"
proof -
  have a: "state \<lparr>state = Suspended, currentTime = 12, sampleRate = 44100\<rparr> = Suspended \<longrightarrow>
      resume_outcome ready_host = Resolved"
    by (simp add: play_inputs)
  have b: "state \<lparr>state = Running, currentTime = 0, sampleRate = 44100\<rparr> = Suspended \<longrightarrow>
      resume_outcome pending_host = Resolved"
    by simp
  have c: "length [0, 0.75, 1.5 :: real] = length [20, 21, 22 :: real]" by simp
  from play_deterministic [OF play_inputs(1,2) a b c, of fallback_params memory_id]
  show ?thesis
    using play_inputs c by blast
qed


text \<open>
  C5. From every engine state stop returns normally. Afterwards the engine is not playing,
  has no timer, tracks no oscillator and holds no master gain; every oscillator that was
  tracked and had been started is stopped and disconnected, and the master gain is
  disconnected. A second stop, and a stop on an engine that never played, return normally
  and change nothing. When the engine has a context whose resume completes, a play after the
  stop completes with a new active session.
\<close>

theorem stop_never_raises:
  "\<exists>e1. stop e = Inr e1 \<and>
     \<not> isPlaying e1 \<and> melodyInterval e1 = None \<and> currentOscillators e1 = [] \<and>
     masterGain e1 = None \<and>
     (\<forall>j < length (nodes e).
        j \<in> set (currentOscillators e) \<and> started (nodes e ! j) \<noteq> None \<longrightarrow>
          stopped (nodes e1 ! j) \<noteq> None \<and> outputs (nodes e1 ! j) = []) \<and>
     (\<forall>mg. masterGain e = Some mg \<and> mg < length (nodes e) \<longrightarrow> outputs (nodes e1 ! mg) = []) \<and>
     stop e1 = Inr e1 \<and>
     stop (new_engine c0) = Inr (new_engine c0) \<and>
     (\<forall>c p memoryId h.
        ctx e = Some c \<and> (state c = Suspended \<longrightarrow> resume_outcome h = Resolved) \<longrightarrow>
        (\<exists>E. play p memoryId h e1 = (Completed, E) \<and> isPlaying E \<and> masterGain E \<noteq> None \<and>
             melodyInterval E \<noteq> None \<and> length (currentOscillators E) = 6))"
proof -
  from stop_result [of e] obtain e1 where
    st: "stop e = Inr e1"
    and f: "\<not> isPlaying e1" "melodyInterval e1 = None" "currentOscillators e1 = []"
      "masterGain e1 = None"
    and cx: "ctx e1 = ctx e"
    and v: "\<forall>j < length (nodes e).
        j \<in> set (currentOscillators e) \<and> started (nodes e ! j) \<noteq> None \<longrightarrow>
          stopped (nodes e1 ! j) \<noteq> None \<and> outputs (nodes e1 ! j) = []"
    and g: "\<forall>mg. masterGain e = Some mg \<and> mg < length (nodes e) \<longrightarrow> outputs (nodes e1 ! mg) = []"
    by blast
  have again: "stop e1 = Inr e1" by (rule stop_stopped [OF f])
  have never: "stop (new_engine c0) = Inr (new_engine c0)"
    by (rule stop_stopped) (simp_all add: new_engine_def)
  have next_play: "\<exists>E. play p memoryId h e1 = (Completed, E) \<and> isPlaying E \<and>
      masterGain E \<noteq> None \<and> melodyInterval E \<noteq> None \<and> length (currentOscillators E) = 6"
    if "ctx e = Some c" and "state c = Suspended \<longrightarrow> resume_outcome h = Resolved"
    for c p memoryId h
  proof -
    have "ctx e1 = Some c" using cx that(1) by simp
    from play_result [OF this that(2), of p memoryId] show ?thesis by auto
  qed
  show ?thesis
    using st f v g again never next_play by blast
qed

theorem stop_never_raises_witness:
  "\<exists>e1. stop suspended_session = Inr e1 \<and>
     1 < length (nodes suspended_session) \<and> 1 \<in> set (currentOscillators suspended_session) \<and>
     started (nodes suspended_session ! 1) \<noteq> None \<and>
     stopped (nodes e1 ! 1) \<noteq> None \<and> outputs (nodes e1 ! 1) = [] \<and>
     masterGain suspended_session = Some 0 \<and> outputs (nodes e1 ! 0) = [] \<and>
     ctx suspended_session = Some \<lparr>state = Suspended, currentTime = 12, sampleRate = 44100\<rparr> \<and>
     resume_outcome ready_host = Resolved \<and>
     (\<exists>E. play fallback_params memory_id ready_host e1 = (Completed, E) \<and> isPlaying E \<and>
          length (currentOscillators E) = 6)"
proof -
  have h: "1 < length (nodes suspended_session)" "1 \<in> set (currentOscillators suspended_session)"
    "started (nodes suspended_session ! 1) \<noteq> None" "masterGain suspended_session = Some 0"
    "0 < length (nodes suspended_session)"
    by (simp_all add: suspended_session_def fresh_def)
  from stop_never_raises [of suspended_session] obtain e1 where
    st: "stop suspended_session = Inr e1"
    and v: "\<forall>j < length (nodes suspended_session).
        j \<in> set (currentOscillators suspended_session) \<and>
        started (nodes suspended_session ! j) \<noteq> None \<longrightarrow>
          stopped (nodes e1 ! j) \<noteq> None \<and> outputs (nodes e1 ! j) = []"
    and g: "\<forall>mg. masterGain suspended_session = Some mg \<and> mg < length (nodes suspended_session) \<longrightarrow>
        outputs (nodes e1 ! mg) = []"
    and n: "\<forall>c p memoryId h.
        ctx suspended_session = Some c \<and> (state c = Suspended \<longrightarrow> resume_outcome h = Resolved) \<longrightarrow>
        (\<exists>E. play p memoryId h e1 = (Completed, E) \<and> isPlaying E \<and> masterGain E \<noteq> None \<and>
             melodyInterval E \<noteq> None \<and> length (currentOscillators E) = 6)"
    by blast
  have a: "stopped (nodes e1 ! 1) \<noteq> None \<and> outputs (nodes e1 ! 1) = []"
    using v h(1-3) by blast
  have b: "outputs (nodes e1 ! 0) = []"
    using g h(4,5) by blast
  have c: "\<exists>E. play fallback_params memory_id ready_host e1 = (Completed, E) \<and> isPlaying E \<and>
          length (currentOscillators E) = 6"
    using n play_inputs(1,3) by blast
  show ?thesis
    using st h a b c play_inputs(1,3) by blast
qed

text \<open>
  C2 (as amended). With a context present, play first awaits the resume of a suspended
  backend. When that resume does not complete, play goes no further: the engine is left
  exactly as it was, its session neither torn down nor replaced. When the backend is running
  or its resume completes, play then tears down the existing session and builds the new one:
  the master gain is a node created by this call, the effects bus exists, the melody timer
  holds the generator of the identifier after the six draws of the pad, the six tracked
  oscillators are nodes created by this call, every oscillator tracked before that had been
  started is stopped, and the session is marked active.
\<close>

theorem play_order:
  assumes "ctx e = Some c"
  shows "(state c = Suspended \<and> resume_outcome h \<noteq> Resolved \<longrightarrow>
            fst (play p memoryId h e) \<noteq> Completed \<and> snd (play p memoryId h e) = e) \<and>
         ((state c = Suspended \<longrightarrow> resume_outcome h = Resolved) \<longrightarrow>
            (\<exists>E. play p memoryId h e = (Completed, E) \<and>
                 map_option state (ctx E) \<noteq> Some Suspended \<and> isPlaying E \<and>
                 masterGain E = Some (length (nodes e)) \<and>
                 reverbNode E \<noteq> None \<and> delayNode E \<noteq> None \<and>
                 melodyInterval E =
                   Some \<lparr>period = noteDuration p * 1000, m_params = p,
                         m_scaleNotes = scaleNotes p,
                         m_rng = (getRandomFromSeed memoryId)\<lparr>calls := 6\<rparr>\<rparr> \<and>
                 length (currentOscillators E) = 6 \<and>
                 (\<forall>i \<in> set (currentOscillators E). length (nodes e) < i \<and> i < length (nodes E)) \<and>
                 (\<forall>j < length (nodes e).
                    j \<in> set (currentOscillators e) \<and> started (nodes e ! j) \<noteq> None \<longrightarrow>
                      stopped (nodes E ! j) \<noteq> None)))"
proof -
  have blocked: "fst (play p memoryId h e) \<noteq> Completed \<and> snd (play p memoryId h e) = e"
    if s: "state c = Suspended" and r: "resume_outcome h \<noteq> Resolved"
  proof -
    from resume_blocked [OF assms s r]
    have "snd (resume (resume_outcome h) e) = e" "fst (resume (resume_outcome h) e) \<noteq> Completed"
      by simp_all
    then show ?thesis
      using assms by (cases "resume (resume_outcome h) e")
        (auto simp: play_def split: completion.splits)
  qed
  have started: "\<exists>E. play p memoryId h e = (Completed, E) \<and>
                 map_option state (ctx E) \<noteq> Some Suspended \<and> isPlaying E \<and>
                 masterGain E = Some (length (nodes e)) \<and>
                 reverbNode E \<noteq> None \<and> delayNode E \<noteq> None \<and>
                 melodyInterval E =
                   Some \<lparr>period = noteDuration p * 1000, m_params = p,
                         m_scaleNotes = scaleNotes p,
                         m_rng = (getRandomFromSeed memoryId)\<lparr>calls := 6\<rparr>\<rparr> \<and>
                 length (currentOscillators E) = 6 \<and>
                 (\<forall>i \<in> set (currentOscillators E). length (nodes e) < i \<and> i < length (nodes E)) \<and>
                 (\<forall>j < length (nodes e).
                    j \<in> set (currentOscillators e) \<and> started (nodes e ! j) \<noteq> None \<longrightarrow>
                      stopped (nodes E ! j) \<noteq> None)"
    if r: "state c = Suspended \<longrightarrow> resume_outcome h = Resolved"
  proof -
    from play_result [OF assms r, of p memoryId] obtain E where
      E: "play p memoryId h e = (Completed, E)" "isPlaying E"
      "ctx E = Some (c\<lparr>state := (if state c = Suspended then Running else state c)\<rparr>)"
      "masterGain E = Some (length (nodes e))" "reverbNode E \<noteq> None" "delayNode E \<noteq> None"
      "melodyInterval E =
         Some \<lparr>period = noteDuration p * 1000, m_params = p, m_scaleNotes = scaleNotes p,
               m_rng = (getRandomFromSeed memoryId)\<lparr>calls := 6\<rparr>\<rparr>"
      "length (currentOscillators E) = 6"
      "\<forall>i \<in> set (currentOscillators E). length (nodes e) < i \<and> i < length (nodes E)"
      "\<forall>j < length (nodes e).
          j \<in> set (currentOscillators e) \<and> started (nodes e ! j) \<noteq> None \<longrightarrow>
            stopped (nodes E ! j) \<noteq> None"
      by blast
    have "map_option state (ctx E) \<noteq> Some Suspended"
      unfolding E(3) by simp
    with E show ?thesis by blast
  qed
  from blocked started show ?thesis by blast
qed

theorem play_order_witness:
  "ctx suspended_session = Some \<lparr>state = Suspended, currentTime = 12, sampleRate = 44100\<rparr> \<and>
   state \<lparr>state = Suspended, currentTime = 12, sampleRate = 44100\<rparr> = Suspended \<and>
   resume_outcome pending_host \<noteq> Resolved \<and>
   snd (play fallback_params memory_id pending_host suspended_session) = suspended_session \<and>
   resume_outcome ready_host = Resolved \<and>
   1 < length (nodes suspended_session) \<and> 1 \<in> set (currentOscillators suspended_session) \<and>
   started (nodes suspended_session ! 1) \<noteq> None \<and>
   (\<exists>E. play fallback_params memory_id ready_host suspended_session = (Completed, E) \<and>
        isPlaying E \<and> masterGain E = Some 3 \<and> length (currentOscillators E) = 6 \<and>
        stopped (nodes E ! 1) \<noteq> None)"
proof -
  have h: "1 < length (nodes suspended_session)" "1 \<in> set (currentOscillators suspended_session)"
    "started (nodes suspended_session ! 1) \<noteq> None" "length (nodes suspended_session) = 3"
    by (simp_all add: suspended_session_def fresh_def)
  have s: "state \<lparr>state = Suspended, currentTime = 12, sampleRate = 44100\<rparr> = Suspended"
    by simp
  have np: "resume_outcome pending_host \<noteq> Resolved" by (simp add: play_inputs)
  note a = play_order [OF play_inputs(1), of pending_host fallback_params memory_id]
  note b = play_order [OF play_inputs(1), of ready_host fallback_params memory_id]
  have a': "snd (play fallback_params memory_id pending_host suspended_session) = suspended_session"
    using a s np by blast
  have b': "\<exists>E. play fallback_params memory_id ready_host suspended_session = (Completed, E) \<and>
        isPlaying E \<and> masterGain E = Some 3 \<and> length (currentOscillators E) = 6 \<and>
        stopped (nodes E ! 1) \<noteq> None"
    using b play_inputs(3) h by (auto simp del: One_nat_def)
  show ?thesis
    using play_inputs(1,3) s np a' b' h(1-3) by blast
qed

text \<open>
  A session is playing on a backend that the host has suspended, and the resume stays
  pending: play is blocked and the session is still there, untouched, although tearing it
  down would have changed the engine.
\<close>

theorem play_order_counterexample:
  "play fallback_params memory_id pending_host suspended_session = (Blocked, suspended_session) \<and>
   isPlaying suspended_session \<and> currentOscillators suspended_session = [1, 2] \<and>
   masterGain suspended_session = Some 0 \<and>
   stop suspended_session \<noteq> Inr suspended_session"
proof -
  have c: "ctx suspended_session =
      Some \<lparr>state = Suspended, currentTime = 12, sampleRate = 44100\<rparr>"
    by (rule play_inputs(1))
  have r: "resume (resume_outcome pending_host) suspended_session = (Blocked, suspended_session)"
    by (simp add: resume_def c pending_host_def)
  have p: "play fallback_params memory_id pending_host suspended_session =
      (Blocked, suspended_session)"
    by (simp add: play_def c r)
  have f: "isPlaying suspended_session" "currentOscillators suspended_session = [1, 2]"
    "masterGain suspended_session = Some 0"
    by (simp_all add: suspended_session_def)
  have "stop suspended_session \<noteq> Inr suspended_session"
  proof
    assume "stop suspended_session = Inr suspended_session"
    with stop_result [of suspended_session] have "\<not> isPlaying suspended_session" by auto
    with f(1) show False by simp
  qed
  with p f show ?thesis by blast
qed

end
